theory Spec2Isabelle
  imports Complex_Main "HOL-Library.AList"
begin

section \<open>JavaScript numbers\<close>

text \<open>
  The client computes with JavaScript numbers. A number is modelled as a finite real, one of
  the two infinities, or NaN. The special cases of the operations follow IEEE 754 as
  JavaScript exposes them (\<open>Math.log10(0)\<close> is \<open>-Infinity\<close>, \<open>0 / 0\<close> is NaN, every
  comparison with NaN is false). Finite results are exact reals: rounding is abstracted, and
  the two zeros are one value.
\<close>

datatype jsnum = Fin real | PInf | NInf | NaN

fun js_add :: "jsnum \<Rightarrow> jsnum \<Rightarrow> jsnum" where
  "js_add NaN _ = NaN"
| "js_add _ NaN = NaN"
| "js_add PInf NInf = NaN"
| "js_add NInf PInf = NaN"
| "js_add PInf _ = PInf"
| "js_add _ PInf = PInf"
| "js_add NInf _ = NInf"
| "js_add _ NInf = NInf"
| "js_add (Fin a) (Fin b) = Fin (a + b)"

fun js_neg :: "jsnum \<Rightarrow> jsnum" where
  "js_neg NaN = NaN"
| "js_neg PInf = NInf"
| "js_neg NInf = PInf"
| "js_neg (Fin a) = Fin (- a)"

fun js_mul :: "jsnum \<Rightarrow> jsnum \<Rightarrow> jsnum" where
  "js_mul NaN _ = NaN"
| "js_mul _ NaN = NaN"
| "js_mul (Fin a) (Fin b) = Fin (a * b)"
| "js_mul (Fin a) y = (if a = 0 then NaN else if 0 < a then y else js_neg y)"
| "js_mul x (Fin b) = (if b = 0 then NaN else if 0 < b then x else js_neg x)"
| "js_mul PInf y = y"
| "js_mul NInf y = js_neg y"

fun js_div :: "jsnum \<Rightarrow> jsnum \<Rightarrow> jsnum" where
  "js_div NaN _ = NaN"
| "js_div _ NaN = NaN"
| "js_div (Fin a) (Fin b) =
     (if b = 0 then (if a = 0 then NaN else if 0 < a then PInf else NInf)
      else Fin (a / b))"
| "js_div (Fin a) _ = Fin 0"
| "js_div x (Fin b) = (if 0 \<le> b then x else js_neg x)"
| "js_div _ _ = NaN"

fun js_sqrt :: "jsnum \<Rightarrow> jsnum" where
  "js_sqrt NaN = NaN"
| "js_sqrt PInf = PInf"
| "js_sqrt NInf = NaN"
| "js_sqrt (Fin a) = (if a < 0 then NaN else Fin (sqrt a))"

fun js_log10 :: "jsnum \<Rightarrow> jsnum" where
  "js_log10 NaN = NaN"
| "js_log10 PInf = PInf"
| "js_log10 NInf = NaN"
| "js_log10 (Fin a) = (if a < 0 then NaN else if a = 0 then NInf else Fin (log 10 a))"

text \<open>\<open>x < y\<close> and \<open>x > y\<close> of JavaScript: false as soon as one side is NaN.\<close>

fun js_lt :: "jsnum \<Rightarrow> jsnum \<Rightarrow> bool" where
  "js_lt NaN _ = False"
| "js_lt _ NaN = False"
| "js_lt (Fin a) (Fin b) = (a < b)"
| "js_lt _ NInf = False"
| "js_lt NInf _ = True"
| "js_lt PInf _ = False"
| "js_lt _ PInf = True"

definition js_gt :: "jsnum \<Rightarrow> jsnum \<Rightarrow> bool" where
  "js_gt x y = js_lt y x"

section \<open>Client: energy meter and voice activity detection\<close>

text \<open>The constants of \<open>app.js\<close>: the energy threshold in dB and the speech padding in ms.\<close>

definition ENERGY_THRESHOLD :: jsnum where
  "ENERGY_THRESHOLD = Fin (- 45)"

definition SPEECH_PADDING :: int where
  "SPEECH_PADDING = 300"

text \<open>
  \<open>calculateEnergy(buffer)\<close>: the loop accumulates the squares from \<open>sum = 0\<close>, then
  \<open>rms = Math.sqrt(sum / buffer.length)\<close> and the result is \<open>20 * Math.log10(rms)\<close>.
\<close>

definition sum_squares :: "jsnum list \<Rightarrow> jsnum" where
  "sum_squares buffer = foldl (\<lambda>sum x. js_add sum (js_mul x x)) (Fin 0) buffer"

definition calculateEnergy :: "jsnum list \<Rightarrow> jsnum" where
  "calculateEnergy buffer =
     (let sum = sum_squares buffer;
          rms = js_sqrt (js_div sum (Fin (real (length buffer))))
      in js_mul (Fin 20) (js_log10 rms))"

text \<open>
  \<open>detectVoiceActivity(energy)\<close> reads the clock (\<open>Date.now()\<close>, integer milliseconds, here the
  argument \<open>now\<close>) and the variable \<open>lastVoiceDetectTime\<close>, which it returns updated next to
  the classification.
\<close>

definition detectVoiceActivity :: "int \<Rightarrow> jsnum \<Rightarrow> int \<Rightarrow> bool \<times> int" where
  "detectVoiceActivity now energy lastVoiceDetectTime =
     (let timeSinceLastDetection = now - lastVoiceDetectTime
      in if js_gt energy ENERGY_THRESHOLD then (True, now)
         else if timeSinceLastDetection < SPEECH_PADDING then (True, lastVoiceDetectTime)
         else (False, lastVoiceDetectTime))"

text \<open>The detector run over a list of (time, energy) readings, in order.\<close>

fun detect_all :: "(int \<times> jsnum) list \<Rightarrow> int \<Rightarrow> bool list" where
  "detect_all [] lastVoiceDetectTime = []"
| "detect_all ((now, energy) # rest) lastVoiceDetectTime =
     (case detectVoiceActivity now energy lastVoiceDetectTime of
        (isSpeaking, last') \<Rightarrow> isSpeaking # detect_all rest last')"

section \<open>Client: capture pipeline\<close>

type_synonym block = "jsnum list"

datatype ctx_state = Running | Suspended | Closed

datatype media = Live | Stopped

text \<open>What the client sends to the server with \<open>socket.emit\<close>.\<close>

datatype client_msg =
    JoinRoomMsg string string
  | LeaveRoomMsg
  | VoiceMsg block
  | SpeakingMsg bool jsnum

text \<open>The lines \<open>debugLog\<close> writes; a number printed in a line is kept as the number.\<close>

datatype log_line =
    LogUserIdNotSet
  | LogStarting
  | LogRequestingMic
  | LogMicGranted
  | LogContextCreated ctx_state
  | LogContextSuspended
  | LogContextResumed ctx_state
  | LogSourceCreated
  | LogAnalyserCreated
  | LogProcessorCreated
  | LogNodesConnected
  | LogProcessingAttached
  | LogStarted
  | LogErrorStarting string
  | LogFullErrorObject
  | LogStopped
  | LogSpeakingDetected jsnum
  | LogSpeakingChanged bool

text \<open>
  The effects of the client code, in the order the code performs them: an emit on the socket,
  a line on the debug sink, a call of \<open>updateActivityMeter\<close>, the start of a buffer source
  (\<open>source.start(0)\<close>), and an exception no handler catches.
\<close>

datatype action =
    Emit client_msg
  | Log log_line
  | Meter string jsnum
  | StartSource "string \<times> block"
  | Uncaught string

text \<open>
  The top-level variables of the client script. \<open>playing\<close> is not a variable of the script:
  it is the list of buffer sources that were started and have not ended yet, which is the
  state of the audio graph that decides when \<open>onended\<close> can fire.
\<close>

record client =
  stream :: "media option"
  audioContext :: "ctx_state option"
  scriptProcessor :: "bool option"
  vadEnabled :: bool
  lastVoiceDetectTime :: int
  isCurrentlySpeaking :: bool
  currentUserId :: "string option"
  audioQueue :: "(string \<times> block) list"
  isPlaying :: bool
  playing :: "(string \<times> block) list"

definition initial_client :: client where
  "initial_client =
     \<lparr>stream = None, audioContext = None, scriptProcessor = None, vadEnabled = False,
      lastVoiceDetectTime = 0, isCurrentlySpeaking = False, currentUserId = None,
      audioQueue = [], isPlaying = False, playing = []\<rparr>"

text \<open>
  JavaScript truthiness of a variable that holds null or a string: null and the empty
  string are falsy.
\<close>

fun truthy :: "string option \<Rightarrow> bool" where
  "truthy None = False"
| "truthy (Some s) = (s \<noteq> [])"

text \<open>The handler of \<open>'your id'\<close>.\<close>

definition on_your_id :: "string \<Rightarrow> client \<Rightarrow> client" where
  "on_your_id uid c = c\<lparr>currentUserId := Some uid\<rparr>"

text \<open>\<open>processAudio\<close> for one block; \<open>now\<close> is what \<open>Date.now()\<close> returns during the call.\<close>

definition processAudio :: "int \<Rightarrow> block \<Rightarrow> client \<Rightarrow> client \<times> action list" where
  "processAudio now inputData c =
     (if \<not> vadEnabled c \<or> \<not> truthy (currentUserId c) then (c, [])
      else
        let energy = calculateEnergy inputData;
            (isSpeaking, last') = detectVoiceActivity now energy (lastVoiceDetectTime c);
            c1 = c\<lparr>lastVoiceDetectTime := last'\<rparr>;
            sent = (if isSpeaking
                    then [Emit (VoiceMsg inputData), Log (LogSpeakingDetected energy)]
                    else []);
            meter = [Meter (case currentUserId c of Some uid \<Rightarrow> uid | None \<Rightarrow> []) energy]
        in if isSpeaking \<noteq> isCurrentlySpeaking c
           then (c1\<lparr>isCurrentlySpeaking := isSpeaking\<rparr>,
                 sent @ meter @
                 [Emit (SpeakingMsg isSpeaking energy), Log (LogSpeakingChanged isSpeaking)])
           else (c1, sent @ meter))"

text \<open>
  \<open>startVoiceChat\<close>. The outcomes the browser decides are arguments: whether
  \<open>getUserMedia\<close> resolves or rejects (with the \<open>message\<close> of the error), the state of the
  new \<open>AudioContext\<close>, and whether \<open>resume()\<close> rejects. The \<open>await\<close>s are taken in one go.
  Everything runs inside the \<open>try\<close>, whose \<open>catch\<close> logs two lines and returns.
\<close>

record browser =
  getUserMedia :: "string + unit"
  newContextState :: ctx_state
  resumeError :: "string option"

definition start_finish :: "client \<Rightarrow> action list \<Rightarrow> client \<times> action list" where
  "start_finish c logs =
     (c\<lparr>scriptProcessor := Some True, vadEnabled := True\<rparr>,
      logs @ [Log LogSourceCreated, Log LogAnalyserCreated, Log LogProcessorCreated,
              Log LogNodesConnected, Log LogProcessingAttached, Log LogStarted])"

definition startVoiceChat :: "browser \<Rightarrow> client \<Rightarrow> client \<times> action list" where
  "startVoiceChat env c =
     (if \<not> truthy (currentUserId c) then (c, [Log LogUserIdNotSet])
      else
        let logs0 = [Log LogStarting, Log LogRequestingMic] in
        case getUserMedia env of
          Inl msg \<Rightarrow> (c, logs0 @ [Log (LogErrorStarting msg), Log LogFullErrorObject])
        | Inr _ \<Rightarrow>
            let c1 = c\<lparr>stream := Some Live, audioContext := Some (newContextState env)\<rparr>;
                logs1 = logs0 @ [Log LogMicGranted, Log (LogContextCreated (newContextState env))]
            in if newContextState env = Suspended
               then (case resumeError env of
                       Some msg \<Rightarrow>
                         (c1, logs1 @ [Log LogContextSuspended, Log (LogErrorStarting msg),
                                       Log LogFullErrorObject])
                     | None \<Rightarrow>
                         start_finish (c1\<lparr>audioContext := Some Running\<rparr>)
                           (logs1 @ [Log LogContextSuspended, Log (LogContextResumed Running)]))
               else start_finish c1 logs1)"

definition stopVoiceChat :: "client \<Rightarrow> client \<times> action list" where
  "stopVoiceChat c =
     (c\<lparr>stream := (case stream c of None \<Rightarrow> None | Some _ \<Rightarrow> Some Stopped),
        audioContext := (case audioContext c of None \<Rightarrow> None | Some _ \<Rightarrow> Some Closed),
        scriptProcessor := (case scriptProcessor c of None \<Rightarrow> None | Some _ \<Rightarrow> Some False),
        vadEnabled := False\<rparr>,
      [Log LogStopped, Emit LeaveRoomMsg])"

section \<open>Client: a speaking notification at a peer\<close>

text \<open>
  The payload of an event travels as JSON, where a number that is NaN or infinite becomes
  \<open>null\<close>: a field that was a number on the sender is a finite number or \<open>null\<close> at the
  receiver.
\<close>

datatype jsval = Num jsnum | Null

fun to_wire :: "jsnum \<Rightarrow> jsval" where
  "to_wire (Fin x) = Num (Fin x)"
| "to_wire _ = Null"

text \<open>In arithmetic \<open>null\<close> counts as 0; \<open>toFixed\<close> is a method of numbers, not of \<open>null\<close>.\<close>

fun to_number :: "jsval \<Rightarrow> jsnum" where
  "to_number (Num x) = x"
| "to_number Null = Fin 0"

fun has_toFixed :: "jsval \<Rightarrow> bool" where
  "has_toFixed (Num x) = True"
| "has_toFixed Null = False"

text \<open>\<open>Math.min\<close> and \<open>Math.max\<close>: NaN as soon as one argument is NaN.\<close>

fun js_min :: "jsnum \<Rightarrow> jsnum \<Rightarrow> jsnum" where
  "js_min NaN _ = NaN"
| "js_min _ NaN = NaN"
| "js_min x y = (if js_lt y x then y else x)"

fun js_max :: "jsnum \<Rightarrow> jsnum \<Rightarrow> jsnum" where
  "js_max NaN _ = NaN"
| "js_max _ NaN = NaN"
| "js_max x y = (if js_lt x y then y else x)"

definition getColorForEnergy :: "jsnum \<Rightarrow> string" where
  "getColorForEnergy e =
     (if js_lt e (Fin 30) then ''#00ff00''
      else if js_lt e (Fin 70) then ''#ffff00''
      else ''#ff0000'')"

text \<open>
  What \<open>updateActivityMeter\<close> and the \<open>'user speaking'\<close> handler do to the page: the width and
  the colour of a meter, a line on the debug sink, or a TypeError that ends the handler.
\<close>

datatype ui_effect =
    SetWidth string jsnum
  | SetColor string string
  | LoggedNoUserId
  | LoggedMeterUpdated string
  | LoggedMeterNotFound string
  | LoggedSpeakingStatus string bool
  | ThrewTypeError

text \<open>
  \<open>updateActivityMeter(userId, energy)\<close> with the energy as it arrived; \<open>hasMeter\<close> tells whether
  the page has the element \<open>meter-userId\<close>. The line it logs calls \<open>energy.toFixed(2)\<close>.
\<close>

definition updateActivityMeter :: "bool \<Rightarrow> string \<Rightarrow> jsval \<Rightarrow> ui_effect list" where
  "updateActivityMeter hasMeter userId v =
     (if userId = [] then [LoggedNoUserId]
      else if hasMeter
      then let normalizedEnergy =
                 js_max (Fin 0) (js_min (Fin 100) (js_mul (js_add (to_number v) (Fin 60)) (Fin 2.5)))
           in [SetWidth userId normalizedEnergy,
               SetColor userId (getColorForEnergy normalizedEnergy),
               if has_toFixed v then LoggedMeterUpdated userId else ThrewTypeError]
      else [LoggedMeterNotFound userId])"

text \<open>
  The handler of \<open>'user speaking'\<close>: the meter, then a line that calls \<open>energy.toFixed(2)\<close>.
  An exception in \<open>updateActivityMeter\<close> ends the handler there.
\<close>

definition on_user_speaking :: "bool \<Rightarrow> string \<Rightarrow> bool \<Rightarrow> jsval \<Rightarrow> ui_effect list" where
  "on_user_speaking hasMeter uid speaking v =
     (let fx = updateActivityMeter hasMeter uid v
      in if ThrewTypeError \<in> set fx then fx
         else if has_toFixed v then fx @ [LoggedSpeakingStatus uid speaking]
         else fx @ [ThrewTypeError])"

section \<open>Client: playback queue\<close>

text \<open>
  \<open>playNextAudio\<close>: with an empty queue it clears the flag; otherwise it sets the flag, shifts
  the head of the queue and starts a source for it. \<open>audioContext.createBuffer\<close> on an
  undefined context is a TypeError, raised after the flag and the queue have changed.
\<close>

definition playNextAudio :: "client \<Rightarrow> client \<times> action list" where
  "playNextAudio c =
     (case audioQueue c of
        [] \<Rightarrow> (c\<lparr>isPlaying := False\<rparr>, [])
      | audioData # rest \<Rightarrow>
          (case audioContext c of
             None \<Rightarrow> (c\<lparr>isPlaying := True, audioQueue := rest\<rparr>, [Uncaught ''TypeError''])
           | Some _ \<Rightarrow>
               (c\<lparr>isPlaying := True, audioQueue := rest, playing := playing c @ [audioData]\<rparr>,
                [StartSource audioData])))"

text \<open>The handler of the \<open>'voice'\<close> event on the client.\<close>

definition on_voice :: "string \<Rightarrow> block \<Rightarrow> client \<Rightarrow> client \<times> action list" where
  "on_voice uid data c =
     (if audioContext c = Some Running
      then let c1 = c\<lparr>audioQueue := audioQueue c @ [(uid, data)]\<rparr>
           in if \<not> isPlaying c1 then playNextAudio c1 else (c1, [])
      else (c, []))"






text \<open>The sources an effect list started, in order.\<close>

fun started :: "action list \<Rightarrow> (string \<times> block) list" where
  "started [] = []"
| "started (StartSource a # out) = a # started out"
| "started (_ # out) = started out"

section \<open>Server: room registry, connections and relay\<close>

type_synonym sid = string
type_synonym room = string

text \<open>The object stored per participant: \<open>{ username, isSpeaking, energy }\<close>.\<close>

record user =
  username :: string
  isSpeaking :: bool
  energy :: jsnum

text \<open>
  The state of the server:
  \<^item> \<open>rooms\<close> is the registry \<open>const rooms = new Map()\<close>, a map from room name to a map from
    socket id to participant. A JavaScript \<open>Map\<close> keeps its keys in insertion order, so it
    is an association list: \<open>set\<close> on a key it holds replaces the value in place, on a new
    key it appends.
  \<^item> \<open>sockets\<close> are the ids of the connections that are open.
  \<^item> \<open>currentRoom\<close> is the variable \<open>let currentRoom = null\<close> of each connection's closure.
  \<^item> \<open>adapter\<close> is the room membership socket.io keeps for \<open>socket.join\<close>, \<open>socket.leave\<close>
    and the room-scoped emits. socket.io puts every socket, when it connects, into a room
    named by the socket's own id, so the room \<open>r\<close> of the adapter can hold the socket
    whose id is \<open>r\<close> next to the sockets that joined \<open>r\<close>.
\<close>

record server =
  rooms :: "(room \<times> (sid \<times> user) list) list"
  sockets :: "sid set"
  currentRoom :: "sid \<Rightarrow> room option"
  adapter :: "room \<Rightarrow> sid set"

definition initial_server :: server where
  "initial_server =
     \<lparr>rooms = [], sockets = {}, currentRoom = (\<lambda>_. None), adapter = (\<lambda>_. {})\<rparr>"

datatype message =
    UserJoined sid string
  | RoomUsers "(sid \<times> user) list"
  | UpdateRooms "room list"
  | YourId sid
  | UserLeft sid
  | RoomLeft
  | VoiceFrom sid block
  | UserSpeaking sid bool jsnum

text \<open>
  The four ways the server addresses an emit: \<open>socket.emit\<close> (that socket),
  \<open>io.to(room).emit\<close> (every socket in the room), \<open>socket.to(room).emit\<close> (every socket in
  the room but the sender) and \<open>io.emit\<close> (every open connection).
\<close>

datatype target = Socket sid | Room room | RoomExcept room sid | Everyone

fun recipients :: "server \<Rightarrow> target \<Rightarrow> sid set" where
  "recipients st (Socket s) = {s}"
| "recipients st (Room r) = adapter st r"
| "recipients st (RoomExcept r s) = adapter st r - {s}"
| "recipients st Everyone = sockets st"

text \<open>An emit is recorded with its address, the sockets it reaches when it is made, and
  the message.\<close>

type_synonym emission = "target \<times> sid set \<times> message"

definition emit :: "server \<Rightarrow> target \<Rightarrow> message \<Rightarrow> emission" where
  "emit st tgt msg = (tgt, recipients st tgt, msg)"

text \<open>The messages a socket receives from a list of emits, in order.\<close>

definition inbox :: "emission list \<Rightarrow> sid \<Rightarrow> message list" where
  "inbox out s = map (\<lambda>(tgt, rcv, msg). msg) (filter (\<lambda>(tgt, rcv, msg). s \<in> rcv) out)"

text \<open>The emits that are broadcasts: addressed to a room or to everyone.\<close>

fun is_broadcast :: "emission \<Rightarrow> bool" where
  "is_broadcast (Socket s, rcv, msg) = False"
| "is_broadcast (tgt, rcv, msg) = True"

definition broadcasts :: "emission list \<Rightarrow> (target \<times> message) list" where
  "broadcasts out = map (\<lambda>(tgt, rcv, msg). (tgt, msg)) (filter is_broadcast out)"

text \<open>\<open>rooms.get(room)\<close>, and the ids in a room of the registry.\<close>

definition room_users :: "server \<Rightarrow> room \<Rightarrow> (sid \<times> user) list option" where
  "room_users st r = map_of (rooms st) r"

definition members :: "server \<Rightarrow> room \<Rightarrow> sid set" where
  "members st r = (case room_users st r of None \<Rightarrow> {} | Some us \<Rightarrow> fst ` set us)"

text \<open>\<open>rooms.get(room).get(id)\<close>: the object the registry stores for a participant.\<close>

definition participant :: "server \<Rightarrow> room \<Rightarrow> sid \<Rightarrow> user option" where
  "participant st r s = (case room_users st r of None \<Rightarrow> None | Some us \<Rightarrow> map_of us s)"

text \<open>
  \<open>leaveRoom(socket, room)\<close>: \<open>socket.leave(room)\<close>, then, if the registry has the room, the
  id is deleted from the room's map (the map object inside the registry is mutated),
  \<open>'user left'\<close> goes to the room, and a room left empty is deleted and the list of room
  names goes to everyone.
\<close>

definition leaveRoom :: "server \<Rightarrow> sid \<Rightarrow> room \<Rightarrow> server \<times> emission list" where
  "leaveRoom st s r =
     (let st1 = st\<lparr>adapter := (adapter st)(r := adapter st r - {s})\<rparr>
      in case room_users st1 r of
           None \<Rightarrow> (st1, [])
         | Some roomUsers \<Rightarrow>
             let st2 = st1\<lparr>rooms := AList.map_entry r (AList.delete s) (rooms st1)\<rparr>;
                 out = [emit st2 (Room r) (UserLeft s)]
             in if length (AList.delete s roomUsers) = 0
                then let st3 = st2\<lparr>rooms := AList.delete r (rooms st2)\<rparr>
                     in (st3, out @ [emit st3 Everyone (UpdateRooms (map fst (rooms st3)))])
                else (st2, out))"

text \<open>
  \<open>joinRoom(socket, room, username)\<close>: \<open>socket.join(room)\<close>, the closure's \<open>currentRoom\<close> is
  set, the room is created empty when the registry lacks it, the participant is stored in
  the room's map, and the four emits follow in the order of the code.
\<close>

definition joinRoom :: "server \<Rightarrow> sid \<Rightarrow> room \<Rightarrow> string \<Rightarrow> server \<times> emission list" where
  "joinRoom st s r name =
     (let st1 = st\<lparr>adapter := (adapter st)(r := insert s (adapter st r)),
                   currentRoom := (currentRoom st)(s := Some r)\<rparr>;
          st2 = (if room_users st1 r = None then st1\<lparr>rooms := rooms st1 @ [(r, [])]\<rparr> else st1);
          st3 = st2\<lparr>rooms := AList.map_entry r
                   (AList.update s \<lparr>username = name, isSpeaking = False, energy = Fin 0\<rparr>)
                   (rooms st2)\<rparr>
      in (st3,
          [emit st3 (Room r) (UserJoined s name),
           emit st3 (Socket s)
             (RoomUsers (case room_users st3 r of None \<Rightarrow> [] | Some us \<Rightarrow> us)),
           emit st3 Everyone (UpdateRooms (map fst (rooms st3))),
           emit st3 (Socket s) (YourId s)]))"

datatype event =
    Connect sid
  | JoinRoom sid room string
  | LeaveRoom sid
  | Voice sid block
  | Speaking sid bool jsnum
  | Disconnect sid

datatype error = TypeError

text \<open>
  The handlers registered in \<open>io.on('connection', ...)\<close>, for the socket \<open>s\<close>. The test
  \<open>if (currentRoom)\<close> fails for null and for the empty string.
\<close>

definition on_join_room :: "server \<Rightarrow> sid \<Rightarrow> room \<Rightarrow> string \<Rightarrow> server \<times> emission list" where
  "on_join_room st s r name =
     (case currentRoom st s of
        None \<Rightarrow> joinRoom st s r name
      | Some old \<Rightarrow>
          if old = [] then joinRoom st s r name
          else (case leaveRoom st s old of
                  (st1, out1) \<Rightarrow> (case joinRoom st1 s r name of
                                    (st2, out2) \<Rightarrow> (st2, out1 @ out2))))"

definition on_leave_room :: "server \<Rightarrow> sid \<Rightarrow> server \<times> emission list" where
  "on_leave_room st s =
     (case currentRoom st s of
        None \<Rightarrow> (st, [])
      | Some r \<Rightarrow>
          if r = [] then (st, [])
          else (case leaveRoom st s r of
                  (st1, out1) \<Rightarrow>
                    let st2 = st1\<lparr>currentRoom := (currentRoom st1)(s := None)\<rparr>
                    in (st2, out1 @ [emit st2 (Socket s) RoomLeft])))"

definition on_voice_server :: "server \<Rightarrow> sid \<Rightarrow> block \<Rightarrow> server \<times> emission list" where
  "on_voice_server st s data =
     (case currentRoom st s of
        None \<Rightarrow> (st, [])
      | Some r \<Rightarrow>
          if r = [] then (st, [])
          else (st, [emit st (RoomExcept r s) (VoiceFrom s data)]))"

text \<open>
  The \<open>'speaking'\<close> handler evaluates \<open>rooms.get(currentRoom).has(socket.id)\<close>: when the
  registry lacks the room, \<open>rooms.get\<close> is undefined and the call is a TypeError. The
  participant object is updated in place.
\<close>

definition on_speaking ::
  "server \<Rightarrow> sid \<Rightarrow> bool \<Rightarrow> jsnum \<Rightarrow> error + (server \<times> emission list)" where
  "on_speaking st s speaking e =
     (case currentRoom st s of
        None \<Rightarrow> Inr (st, [])
      | Some r \<Rightarrow>
          if r = [] then Inr (st, [])
          else (case room_users st r of
                  None \<Rightarrow> Inl TypeError
                | Some roomUsers \<Rightarrow>
                    if s \<in> fst ` set roomUsers
                    then let st1 = st\<lparr>rooms := AList.map_entry r
                                     (AList.map_entry s
                                        (\<lambda>u. u\<lparr>isSpeaking := speaking, energy := e\<rparr>))
                                     (rooms st)\<rparr>
                         in Inr (st1, [emit st1 (Room r) (UserSpeaking s speaking e)])
                    else Inr (st, [])))"

text \<open>
  When a connection closes, socket.io takes the socket out of every room and out of the
  open connections, and then calls the \<open>'disconnect'\<close> handler.
\<close>

definition on_disconnect :: "server \<Rightarrow> sid \<Rightarrow> server \<times> emission list" where
  "on_disconnect st s =
     (let st0 = st\<lparr>sockets := sockets st - {s}, adapter := (\<lambda>r. adapter st r - {s})\<rparr>
      in case currentRoom st0 s of
           None \<Rightarrow> (st0, [])
         | Some r \<Rightarrow> if r = [] then (st0, []) else leaveRoom st0 s r)"

text \<open>
  One event. A connection gets a fresh closure with \<open>currentRoom = null\<close> and enters the
  room of its own id; an id that is open cannot connect again. The other events come from open connections only: a closed
  socket delivers nothing.
\<close>

fun step :: "server \<Rightarrow> event \<Rightarrow> error + (server \<times> emission list)" where
  "step st (Connect s) =
     (if s \<in> sockets st then Inr (st, [])
      else Inr (st\<lparr>sockets := insert s (sockets st),
                   currentRoom := (currentRoom st)(s := None),
                   adapter := (adapter st)(s := insert s (adapter st s))\<rparr>, []))"
| "step st (JoinRoom s r name) =
     (if s \<in> sockets st then Inr (on_join_room st s r name) else Inr (st, []))"
| "step st (LeaveRoom s) =
     (if s \<in> sockets st then Inr (on_leave_room st s) else Inr (st, []))"
| "step st (Voice s data) =
     (if s \<in> sockets st then Inr (on_voice_server st s data) else Inr (st, []))"
| "step st (Speaking s speaking e) =
     (if s \<in> sockets st then on_speaking st s speaking e else Inr (st, []))"
| "step st (Disconnect s) =
     (if s \<in> sockets st then Inr (on_disconnect st s) else Inr (st, []))"

text \<open>A sequence of events from a state; an exception in a handler ends the run.\<close>

fun run :: "server \<Rightarrow> event list \<Rightarrow> error + server" where
  "run st [] = Inr st"
| "run st (ev # evs) =
     (case step st ev of
        Inl err \<Rightarrow> Inl err
      | Inr (st', out) \<Rightarrow> run st' evs)"

text \<open>The emits of a step; a step that raised made none.\<close>

fun outputs :: "error + (server \<times> emission list) \<Rightarrow> emission list" where
  "outputs (Inl err) = []"
| "outputs (Inr (st, out)) = out"

section \<open>Invariants\<close>

text \<open>No room of the registry has an empty map of participants.\<close>

definition no_empty_room :: "server \<Rightarrow> bool" where
  "no_empty_room st = (\<forall>(r, us) \<in> set (rooms st). us \<noteq> [])"

text \<open>
  The socket.io rooms hold open connections only; a named room holds all its participants,
  and the only other socket it can hold is the one whose id is the room's name.
\<close>

definition adapter_ok :: "server \<Rightarrow> bool" where
  "adapter_ok st =
     ((\<forall>r. adapter st r \<subseteq> sockets st) \<and>
      (\<forall>r. r \<noteq> [] \<longrightarrow>
         members st r \<subseteq> adapter st r \<and> adapter st r \<subseteq> insert r (members st r)))"

text \<open>
  The participants of a named room are the open connections whose \<open>currentRoom\<close> is the
  room.
\<close>

definition bound_ok :: "server \<Rightarrow> bool" where
  "bound_ok st =
     (\<forall>r s. r \<noteq> [] \<longrightarrow>
        (s \<in> members st r \<longleftrightarrow> s \<in> sockets st \<and> currentRoom st s = Some r))"

definition consistent :: "server \<Rightarrow> bool" where
  "consistent st = (no_empty_room st \<and> adapter_ok st \<and> bound_ok st)"

text \<open>The messages an effect list sends to the server, in order.\<close>

fun emits :: "action list \<Rightarrow> client_msg list" where
  "emits [] = []"
| "emits (Emit m # out) = m # emits out"
| "emits (_ # out) = emits out"


section \<open>Association lists as JavaScript maps\<close>

lemma map_of_map_entry_eq:
  "map_of (AList.map_entry k f al) k' = (if k' = k then map_option f (map_of al k) else map_of al k')"
  by (induction al) auto

lemma set_map_entry:
  "(k', v') \<in> set (AList.map_entry k f al) \<Longrightarrow>
     (k', v') \<in> set al \<or> (k' = k \<and> (\<exists>v. map_of al k = Some v \<and> v' = f v))"
  by (induction al) (auto split: if_splits)

lemma fst_set_delete: "fst ` set (AList.delete k al) = fst ` set al - {k}"
  by (auto simp: AList.delete_eq)

lemma map_of_delete_eq:
  "map_of (AList.delete k al) k' = (if k' = k then None else map_of al k')"
  by (simp add: AList.delete_conv')

lemma delete_empty_keys: "AList.delete k al = [] \<Longrightarrow> fst ` set al - {k} = {}"
  using fst_set_delete [of k al] by simp

lemma map_entry_append_new:
  "map_of al k = None \<Longrightarrow> AList.map_entry k f (al @ [(k, v)]) = al @ [(k, f v)]"
  by (induction al) (auto split: if_splits)

lemma map_of_append_new:
  "map_of al k = None \<Longrightarrow> map_of (al @ [(k, v)]) k' = (if k' = k then Some v else map_of al k')"
  by (induction al) (auto split: if_splits)

lemma update_not_empty: "[] \<noteq> AList.update k v al"
  by (cases al) auto

section \<open>The effect of \<open>leaveRoom\<close> and \<open>joinRoom\<close> on the state\<close>

lemma leaveRoom_sockets [simp]: "sockets (fst (leaveRoom st s r)) = sockets st"
  by (simp add: leaveRoom_def Let_def room_users_def split: option.splits)

lemma leaveRoom_currentRoom [simp]: "currentRoom (fst (leaveRoom st s r)) = currentRoom st"
  by (simp add: leaveRoom_def Let_def room_users_def split: option.splits)

lemma leaveRoom_adapter [simp]:
  "adapter (fst (leaveRoom st s r)) = (adapter st)(r := adapter st r - {s})"
  by (simp add: leaveRoom_def Let_def room_users_def split: option.splits)

lemma leaveRoom_room_users:
  "room_users (fst (leaveRoom st s r)) r' =
     (if r' = r
      then (case room_users st r of
              None \<Rightarrow> None
            | Some us \<Rightarrow> if AList.delete s us = [] then None else Some (AList.delete s us))
      else room_users st r')"
  by (simp add: leaveRoom_def Let_def room_users_def map_of_map_entry_eq map_of_delete_eq
           split: option.splits)

lemma leaveRoom_members:
  "members (fst (leaveRoom st s r)) r' = (if r' = r then members st r - {s} else members st r')"
  using delete_empty_keys [of s _]
  by (auto simp: members_def leaveRoom_room_users fst_set_delete split: option.splits)

lemma leaveRoom_no_empty_room:
  assumes "no_empty_room st"
  shows "no_empty_room (fst (leaveRoom st s r))"
  using assms
  by (auto simp: no_empty_room_def leaveRoom_def Let_def room_users_def AList.delete_eq
           split: option.splits dest!: set_map_entry)

lemma joinRoom_sockets [simp]: "sockets (fst (joinRoom st s r name)) = sockets st"
  by (simp add: joinRoom_def Let_def)

lemma joinRoom_currentRoom [simp]:
  "currentRoom (fst (joinRoom st s r name)) = (currentRoom st)(s := Some r)"
  by (simp add: joinRoom_def Let_def)

lemma joinRoom_adapter [simp]:
  "adapter (fst (joinRoom st s r name)) = (adapter st)(r := insert s (adapter st r))"
  by (simp add: joinRoom_def Let_def)

lemma joinRoom_room_users:
  "room_users (fst (joinRoom st s r name)) r' =
     (if r' = r
      then Some (AList.update s \<lparr>username = name, isSpeaking = False, energy = Fin 0\<rparr>
                  (case room_users st r of None \<Rightarrow> [] | Some us \<Rightarrow> us))
      else room_users st r')"
  by (auto simp: joinRoom_def Let_def room_users_def map_of_map_entry_eq map_of_append_new
           simp del: map_of_append split: option.splits)

lemma joinRoom_members:
  "members (fst (joinRoom st s r name)) r' =
     (if r' = r then insert s (members st r) else members st r')"
  by (auto simp: members_def joinRoom_room_users AList.dom_update split: option.splits)

lemma joinRoom_no_empty_room:
  assumes "no_empty_room st"
  shows "no_empty_room (fst (joinRoom st s r name))"
  using assms
  by (auto simp: no_empty_room_def joinRoom_def Let_def room_users_def map_entry_append_new
                 update_not_empty
           split: option.splits if_splits dest!: set_map_entry)


section \<open>The invariants hold in every reachable state\<close>

lemma members_upd [simp]:
  "members (st\<lparr>currentRoom := c\<rparr>) = members st"
  "members (st\<lparr>sockets := x\<rparr>) = members st"
  "members (st\<lparr>adapter := a\<rparr>) = members st"
  by (simp_all add: members_def room_users_def fun_eq_iff)

lemma no_empty_room_upd [simp]:
  "no_empty_room (st\<lparr>currentRoom := c\<rparr>) = no_empty_room st"
  "no_empty_room (st\<lparr>sockets := x\<rparr>) = no_empty_room st"
  "no_empty_room (st\<lparr>adapter := a\<rparr>) = no_empty_room st"
  by (simp_all add: no_empty_room_def)

lemma consistent_initial: "consistent initial_server"
  by (simp add: consistent_def adapter_ok_def bound_ok_def initial_server_def no_empty_room_def
                members_def room_users_def)

lemma consistent_connect:
  assumes "consistent st" "s \<notin> sockets st"
  shows "consistent (st\<lparr>sockets := insert s (sockets st),
                         currentRoom := (currentRoom st)(s := None),
                         adapter := (adapter st)(s := insert s (adapter st s))\<rparr>)"
  using assms unfolding consistent_def adapter_ok_def bound_ok_def by auto

lemma adapter_ok_leaveRoom:
  "adapter_ok st \<Longrightarrow> adapter_ok (fst (leaveRoom st s r))"
  unfolding adapter_ok_def by (auto simp: leaveRoom_members)

lemma adapter_ok_joinRoom:
  "adapter_ok st \<Longrightarrow> s \<in> sockets st \<Longrightarrow> adapter_ok (fst (joinRoom st s r name))"
  unfolding adapter_ok_def by (auto simp: joinRoom_members)

lemma adapter_ok_currentRoom [simp]:
  "adapter_ok (st\<lparr>currentRoom := c\<rparr>) = adapter_ok st"
  by (simp add: adapter_ok_def)

lemma bound_ok_join_after_leave:
  assumes "bound_ok st" "s \<in> sockets st" "currentRoom st s = Some old" "old \<noteq> []"
  shows "bound_ok (fst (joinRoom (fst (leaveRoom st s old)) s r name))"
  using assms unfolding bound_ok_def
  by (auto simp: joinRoom_members leaveRoom_members)

lemma bound_ok_join_unbound:
  assumes "bound_ok st" "s \<in> sockets st" "currentRoom st s = None \<or> currentRoom st s = Some []"
  shows "bound_ok (fst (joinRoom st s r name))"
  using assms unfolding bound_ok_def
  by (auto simp: joinRoom_members)

lemma consistent_on_join_room:
  assumes "consistent st" "s \<in> sockets st"
  shows "consistent (fst (on_join_room st s r name))"
proof (cases "\<exists>old. currentRoom st s = Some old \<and> old \<noteq> []")
  case True
  then obtain old where old: "currentRoom st s = Some old" "old \<noteq> []" by blast
  let ?st1 = "fst (leaveRoom st s old)"
  have "no_empty_room (fst (joinRoom ?st1 s r name))"
    using assms by (simp add: consistent_def joinRoom_no_empty_room leaveRoom_no_empty_room)
  moreover have "adapter_ok (fst (joinRoom ?st1 s r name))"
    using assms by (simp add: consistent_def adapter_ok_joinRoom adapter_ok_leaveRoom)
  moreover have "bound_ok (fst (joinRoom ?st1 s r name))"
    using assms old by (simp add: consistent_def bound_ok_join_after_leave)
  ultimately show ?thesis
    using old by (simp add: on_join_room_def case_prod_beta consistent_def)
next
  case False
  then have u: "currentRoom st s = None \<or> currentRoom st s = Some []"
    by (cases "currentRoom st s") auto
  have "no_empty_room (fst (joinRoom st s r name))"
    using assms by (simp add: consistent_def joinRoom_no_empty_room)
  moreover have "adapter_ok (fst (joinRoom st s r name))"
    using assms by (simp add: consistent_def adapter_ok_joinRoom)
  moreover have "bound_ok (fst (joinRoom st s r name))"
    using assms u by (simp add: consistent_def bound_ok_join_unbound)
  ultimately show ?thesis
    using u by (auto simp: on_join_room_def consistent_def)
qed

lemma consistent_on_leave_room:
  assumes "consistent st" "s \<in> sockets st"
  shows "consistent (fst (on_leave_room st s))"
proof (cases "\<exists>r. currentRoom st s = Some r \<and> r \<noteq> []")
  case True
  then obtain r where r: "currentRoom st s = Some r" "r \<noteq> []" by blast
  let ?st1 = "fst (leaveRoom st s r)"
  let ?st2 = "?st1\<lparr>currentRoom := (currentRoom ?st1)(s := None)\<rparr>"
  have "no_empty_room ?st2"
    using assms by (simp add: consistent_def leaveRoom_no_empty_room)
  moreover have "adapter_ok ?st2"
    using assms by (simp add: consistent_def adapter_ok_leaveRoom)
  moreover have "bound_ok ?st2"
    using assms r unfolding consistent_def bound_ok_def
    by (auto simp: leaveRoom_members)
  ultimately show ?thesis
    using r by (simp add: on_leave_room_def case_prod_beta Let_def consistent_def)
next
  case False
  with assms show ?thesis
    by (auto simp: on_leave_room_def split: option.splits)
qed

lemma consistent_on_disconnect:
  assumes "consistent st" "s \<in> sockets st"
  shows "consistent (fst (on_disconnect st s))"
proof -
  let ?st0 = "st\<lparr>sockets := sockets st - {s}, adapter := (\<lambda>r. adapter st r - {s})\<rparr>"
  show ?thesis
  proof (cases "\<exists>r. currentRoom st s = Some r \<and> r \<noteq> []")
    case True
    then obtain r where r: "currentRoom st s = Some r" "r \<noteq> []" by blast
    have "no_empty_room (fst (leaveRoom ?st0 s r))"
      using assms by (simp add: consistent_def leaveRoom_no_empty_room)
    moreover have "adapter_ok (fst (leaveRoom ?st0 s r))"
      using assms r unfolding consistent_def adapter_ok_def bound_ok_def
      by (auto simp: leaveRoom_members)
    moreover have "bound_ok (fst (leaveRoom ?st0 s r))"
      using assms r unfolding consistent_def bound_ok_def
      by (auto simp: leaveRoom_members)
    ultimately show ?thesis
      using r by (simp add: on_disconnect_def Let_def consistent_def)
  next
    case False
    have "consistent ?st0"
      using assms False unfolding consistent_def adapter_ok_def bound_ok_def by auto
    with False show ?thesis
      by (auto simp: on_disconnect_def Let_def split: option.splits)
  qed
qed

lemma on_voice_server_state [simp]: "fst (on_voice_server st s data) = st"
  by (simp add: on_voice_server_def split: option.splits)

lemma speaking_members:
  "members (st\<lparr>rooms := AList.map_entry r (AList.map_entry s f) (rooms st)\<rparr>) r' = members st r'"
  by (auto simp: members_def room_users_def map_of_map_entry_eq AList.dom_map_entry
           split: option.splits)

lemma map_entry_not_empty:
  "AList.map_entry k f al = [] \<longleftrightarrow> al = []"
  "[] = AList.map_entry k f al \<longleftrightarrow> al = []"
  by (cases al; auto)+

lemma no_empty_room_lookup:
  assumes "no_empty_room st" "map_of (rooms st) r = Some us"
  shows "us \<noteq> []"
proof -
  from assms(2) have "(r, us) \<in> set (rooms st)" by (rule map_of_SomeD)
  with assms(1) show ?thesis by (auto simp: no_empty_room_def)
qed

lemma speaking_no_empty_room:
  assumes "no_empty_room st"
  shows "no_empty_room (st\<lparr>rooms := AList.map_entry r (AList.map_entry s f) (rooms st)\<rparr>)"
  unfolding no_empty_room_def
proof (clarsimp)
  fix r'
  assume "(r', []) \<in> set (AList.map_entry r (AList.map_entry s f) (rooms st))"
  from set_map_entry [OF this]
  show False
  proof
    assume "(r', []) \<in> set (rooms st)"
    with assms show False by (auto simp: no_empty_room_def)
  next
    assume "r' = r \<and> (\<exists>v. map_of (rooms st) r = Some v \<and> [] = AList.map_entry s f v)"
    then obtain v where "map_of (rooms st) r = Some v" "v = []"
      by (auto simp: map_entry_not_empty)
    with no_empty_room_lookup [OF assms] show False by blast
  qed
qed

lemma consistent_speaking_update:
  "consistent st \<Longrightarrow>
   consistent (st\<lparr>rooms := AList.map_entry r (AList.map_entry s f) (rooms st)\<rparr>)"
  by (simp add: consistent_def adapter_ok_def bound_ok_def speaking_members
                speaking_no_empty_room)

lemma consistent_on_speaking:
  assumes "consistent st" "on_speaking st s b e = Inr (st', out)"
  shows "consistent st'"
  using assms
  by (auto simp: on_speaking_def Let_def consistent_speaking_update
           split: option.splits if_splits)

lemma on_speaking_no_error:
  assumes "consistent st" "s \<in> sockets st"
  shows "on_speaking st s b e \<noteq> Inl err"
proof -
  { fix r assume r: "currentRoom st s = Some r" "r \<noteq> []"
    with assms have "s \<in> members st r" by (simp add: consistent_def bound_ok_def)
    then have "room_users st r \<noteq> None" by (auto simp: members_def split: option.splits) }
  then show ?thesis
    by (auto simp: on_speaking_def Let_def split: option.splits)
qed

lemma step_consistent:
  assumes "consistent st"
  shows "\<exists>st' out. step st ev = Inr (st', out) \<and> consistent st'"
proof (cases ev)
  case (Connect s)
  with assms show ?thesis by (auto simp: consistent_connect)
next
  case (JoinRoom s r name)
  with assms consistent_on_join_room [of st s r name] show ?thesis
    by (cases "on_join_room st s r name") auto
next
  case (LeaveRoom s)
  with assms consistent_on_leave_room [of st s] show ?thesis
    by (cases "on_leave_room st s") auto
next
  case (Voice s data)
  with assms on_voice_server_state [of st s data] show ?thesis
    by (cases "on_voice_server st s data") auto
next
  case (Speaking s b e)
  show ?thesis
  proof (cases "s \<in> sockets st")
    case True
    with assms on_speaking_no_error [of st s b e] obtain st' out
      where "on_speaking st s b e = Inr (st', out)"
      by (cases "on_speaking st s b e") auto
    with assms Speaking True consistent_on_speaking show ?thesis by auto
  next
    case False
    with assms Speaking show ?thesis by simp
  qed
next
  case (Disconnect s)
  with assms consistent_on_disconnect [of st s] show ?thesis
    by (cases "on_disconnect st s") auto
qed

lemma run_consistent:
  assumes "consistent st"
  shows "\<exists>st'. run st evs = Inr st' \<and> consistent st'"
  using assms
proof (induction evs arbitrary: st)
  case Nil
  then show ?case by simp
next
  case (Cons ev evs)
  from step_consistent [OF Cons.prems, of ev] obtain st1 out
    where "step st ev = Inr (st1, out)" "consistent st1" by blast
  with Cons.IH [of st1] show ?case by simp
qed

lemma reachable_consistent:
  assumes "run initial_server evs = Inr st"
  shows "consistent st"
  using run_consistent [OF consistent_initial, of evs] assms by auto


section \<open>The emits of \<open>leaveRoom\<close> and \<open>joinRoom\<close>\<close>

lemma leaveRoom_rooms:
  "rooms (fst (leaveRoom st s r)) =
     (case map_of (rooms st) r of
        None \<Rightarrow> rooms st
      | Some us \<Rightarrow>
          if AList.delete s us = []
          then AList.delete r (AList.map_entry r (AList.delete s) (rooms st))
          else AList.map_entry r (AList.delete s) (rooms st))"
  by (simp add: leaveRoom_def room_users_def Let_def split: option.splits)

lemma leaveRoom_out:
  "snd (leaveRoom st s r) =
     (case room_users st r of
        None \<Rightarrow> []
      | Some us \<Rightarrow>
          (Room r, adapter st r - {s}, UserLeft s) #
          (if AList.delete s us = []
           then [(Everyone, sockets st, UpdateRooms (map fst (rooms (fst (leaveRoom st s r)))))]
           else []))"
  by (simp add: leaveRoom_def room_users_def Let_def emit_def split: option.splits)

lemma delete_empty_iff: "AList.delete k al = [] \<longleftrightarrow> fst ` set al \<subseteq> {k}"
  by (auto simp: AList.delete_eq filter_empty_conv)

lemma joinRoom_out:
  "snd (joinRoom st s r name) =
     [(Room r, adapter (fst (joinRoom st s r name)) r, UserJoined s name),
      (Socket s, {s},
       RoomUsers (case room_users (fst (joinRoom st s r name)) r of None \<Rightarrow> [] | Some us \<Rightarrow> us)),
      (Everyone, sockets st, UpdateRooms (map fst (rooms (fst (joinRoom st s r name))))),
      (Socket s, {s}, YourId s)]"
  by (simp add: joinRoom_def Let_def emit_def)

lemma reachable_room:
  assumes "run initial_server evs = Inr st" "r \<noteq> []"
  shows "adapter st r = members st r \<union> ({r} \<inter> adapter st r)"
    and "adapter st r \<subseteq> sockets st"
    and "s \<in> members st r \<longleftrightarrow> s \<in> sockets st \<and> currentRoom st s = Some r"
proof -
  have c: "consistent st" using assms(1) by (rule reachable_consistent)
  with assms(2) show "adapter st r = members st r \<union> ({r} \<inter> adapter st r)"
    unfolding consistent_def adapter_ok_def by blast
  from c show "adapter st r \<subseteq> sockets st"
    unfolding consistent_def adapter_ok_def by blast
  from c assms(2) show "s \<in> members st r \<longleftrightarrow> s \<in> sockets st \<and> currentRoom st s = Some r"
    unfolding consistent_def bound_ok_def by blast
qed

text \<open>The definitions a concrete run is evaluated with.\<close>

lemmas server_defs = initial_server_def on_join_room_def on_leave_room_def on_disconnect_def
  on_voice_server_def on_speaking_def joinRoom_def leaveRoom_def room_users_def emit_def Let_def
  members_def inbox_def broadcasts_def

section \<open>Server: the claims\<close>

text \<open>
  C2. No empty room: whatever events the server receives from its start, in whatever order,
  no handler raises and no room of the resulting registry has an empty participant map.
  (\<open>leaveRoom\<close> deletes a room as soon as its map is empty, and \<open>joinRoom\<close> puts the
  joiner into a room in the call that creates it.)
\<close>

theorem registry_has_no_empty_room:
  "\<exists>st. run initial_server evs = Inr st \<and> (\<forall>(r, us) \<in> set (rooms st). us \<noteq> [])"
  using run_consistent [OF consistent_initial, of evs]
  by (auto simp: consistent_def no_empty_room_def)

theorem registry_has_no_empty_room_witness:
  "\<exists>st us. run initial_server
       [Connect ''a'', JoinRoom ''a'' ''r'' ''ann'', Connect ''b'', JoinRoom ''b'' ''r'' ''bob'',
        LeaveRoom ''a'', Connect ''c'', JoinRoom ''c'' ''q'' ''cy'', Disconnect ''c''] = Inr st \<and>
     rooms st = [(''r'', us)] \<and> us \<noteq> []"
proof -
  let ?evs = "[Connect ''a'', JoinRoom ''a'' ''r'' ''ann'', Connect ''b'',
               JoinRoom ''b'' ''r'' ''bob'', LeaveRoom ''a'', Connect ''c'',
               JoinRoom ''c'' ''q'' ''cy'', Disconnect ''c'']"
  from registry_has_no_empty_room [of ?evs] obtain st
    where run: "run initial_server ?evs = Inr st"
      and ne: "\<forall>(r, us) \<in> set (rooms st). us \<noteq> []" by blast
  have "rooms st = [(''r'', [(''b'', \<lparr>username = ''bob'', isSpeaking = False, energy = Fin 0\<rparr>)])]"
    using run by (auto simp: server_defs)
  with run ne show ?thesis by auto
qed

text \<open>
  C1. Relay of audio, as the code does it: in a reachable state, a \<open>'voice'\<close> event of an
  open connection changes nothing in the state and raises nothing. If the sender's
  \<open>currentRoom\<close> is null or the empty string, nothing is emitted. Otherwise the sender is a
  participant of that room and the one emit carries the block with the sender's id; a
  socket receives it exactly if it is not the sender and is a participant of the room or
  is the socket whose own id is the room's name and which is in the socket.io room of that
  name. So when no open connection has the room's name as its id, the block reaches the
  other participants and no one else; and a participant of another named room who receives
  it is that one socket.
\<close>

theorem voice_relay:
  assumes "run initial_server evs = Inr st" and "s \<in> sockets st"
  shows "\<exists>out. step st (Voice s data) = Inr (st, out) \<and>
           (case currentRoom st s of
              None \<Rightarrow> out = []
            | Some r \<Rightarrow>
                if r = [] then out = []
                else
                  s \<in> members st r \<and>
                  (\<forall>t. inbox out t =
                         (if t \<noteq> s \<and> (t \<in> members st r \<or> t = r \<and> r \<in> adapter st r)
                          then [VoiceFrom s data] else [])) \<and>
                  (r \<notin> sockets st \<longrightarrow>
                     (\<forall>t. inbox out t =
                            (if t \<in> members st r \<and> t \<noteq> s then [VoiceFrom s data] else []))) \<and>
                  (\<forall>t r'. t \<in> members st r' \<and> r' \<noteq> [] \<and> inbox out t \<noteq> [] \<longrightarrow>
                            r' = r \<or> t = r))"
proof (cases "\<exists>r. currentRoom st s = Some r \<and> r \<noteq> []")
  case False
  with assms(2) show ?thesis
    by (cases "currentRoom st s") (auto simp: on_voice_server_def)
next
  case True
  then obtain r where r: "currentRoom st s = Some r" "r \<noteq> []" by blast
  note room = reachable_room [OF assms(1) r(2)]
  have mem: "s \<in> members st r" using room(3) [of s] assms(2) r by simp
  let ?out = "[(RoomExcept r s, adapter st r - {s}, VoiceFrom s data)]"
  have st: "step st (Voice s data) = Inr (st, ?out)"
    using assms(2) r by (simp add: on_voice_server_def emit_def)
  have inb: "inbox ?out t =
      (if t \<noteq> s \<and> (t \<in> members st r \<or> t = r \<and> r \<in> adapter st r)
       then [VoiceFrom s data] else [])" for t
    using room(1) by (auto simp: inbox_def)
  have plain: "inbox ?out t = (if t \<in> members st r \<and> t \<noteq> s then [VoiceFrom s data] else [])"
    if "r \<notin> sockets st" for t
    using that room(2) inb [of t] by auto
  have one: "r' = r \<or> t = r" if "t \<in> members st r'" "r' \<noteq> []" "inbox ?out t \<noteq> []" for t r'
  proof -
    from that(3) inb [of t] have "t \<in> members st r \<or> t = r" by (auto split: if_splits)
    then show ?thesis
    proof
      assume "t \<in> members st r"
      with that(1) room(3) [of t] reachable_room(3) [OF assms(1) that(2), of t]
      show ?thesis by auto
    qed simp
  qed
  show ?thesis
  proof (rule exI [of _ ?out], intro conjI)
    show "step st (Voice s data) = Inr (st, ?out)" by (rule st)
    show "case currentRoom st s of
            None \<Rightarrow> ?out = []
          | Some r \<Rightarrow>
              if r = [] then ?out = []
              else
                s \<in> members st r \<and>
                (\<forall>t. inbox ?out t =
                       (if t \<noteq> s \<and> (t \<in> members st r \<or> t = r \<and> r \<in> adapter st r)
                        then [VoiceFrom s data] else [])) \<and>
                (r \<notin> sockets st \<longrightarrow>
                   (\<forall>t. inbox ?out t =
                          (if t \<in> members st r \<and> t \<noteq> s then [VoiceFrom s data] else []))) \<and>
                (\<forall>t r'. t \<in> members st r' \<and> r' \<noteq> [] \<and> inbox ?out t \<noteq> [] \<longrightarrow>
                          r' = r \<or> t = r)"
      using r mem inb plain one by simp
  qed
qed

theorem voice_relay_witness:
  "\<exists>st out. run initial_server
        [Connect ''a'', Connect ''b'', Connect ''c'', Connect ''d'',
         JoinRoom ''a'' ''r'' ''ann'', JoinRoom ''b'' ''r'' ''bob'',
         JoinRoom ''c'' ''q'' ''cy''] = Inr st \<and>
     step st (Voice ''a'' [Fin 1]) = Inr (st, out) \<and>
     inbox out ''b'' = [VoiceFrom ''a'' [Fin 1]] \<and>
     inbox out ''a'' = [] \<and> inbox out ''c'' = [] \<and> inbox out ''d'' = [] \<and>
     step st (Voice ''d'' [Fin 1]) = Inr (st, [])"
proof -
  let ?evs = "[Connect ''a'', Connect ''b'', Connect ''c'', Connect ''d'',
         JoinRoom ''a'' ''r'' ''ann'', JoinRoom ''b'' ''r'' ''bob'',
         JoinRoom ''c'' ''q'' ''cy'']"
  obtain st where run: "run initial_server ?evs = Inr st"
    using run_consistent [OF consistent_initial, of ?evs] by blast
  have facts: "sockets st = {''a'', ''b'', ''c'', ''d''}" "currentRoom st ''a'' = Some ''r''"
    "currentRoom st ''d'' = None" "members st ''r'' = {''a'', ''b''}"
    using run by (auto simp: server_defs)
  have a: "''a'' \<in> sockets st" and d: "''d'' \<in> sockets st" and nr: "''r'' \<notin> sockets st"
    using facts(1) by simp_all
  from voice_relay [OF run a, of "[Fin 1]"] facts nr
  obtain out where o: "step st (Voice ''a'' [Fin 1]) = Inr (st, out)"
    "\<forall>t. inbox out t = (if t \<in> {''a'', ''b''} \<and> t \<noteq> ''a'' then [VoiceFrom ''a'' [Fin 1]] else [])"
    by auto
  from voice_relay [OF run d, of "[Fin 1]"] facts
  have dd: "step st (Voice ''d'' [Fin 1]) = Inr (st, [])" by auto
  from o(2) have "inbox out ''b'' = [VoiceFrom ''a'' [Fin 1]]" "inbox out ''a'' = []"
    "inbox out ''c'' = []" "inbox out ''d'' = []" by simp_all
  with run o(1) dd show ?thesis by blast
qed

text \<open>
  The block crosses rooms when a room is named like a socket: \<open>b\<close> is in room \<open>q\<close>, \<open>a\<close>
  joins the room named \<open>b\<close>, whose only participant is \<open>a\<close>, and the block \<open>a\<close> sends is
  delivered to \<open>b\<close>.
\<close>

theorem voice_relay_crosses_rooms:
  "run initial_server
     [Connect ''a'', Connect ''b'', JoinRoom ''b'' ''q'' ''bob'', JoinRoom ''a'' ''b'' ''ann''] =
     Inr (initial_server
            \<lparr>rooms := [(''q'', [(''b'', \<lparr>username = ''bob'', isSpeaking = False,
                                         energy = Fin 0\<rparr>)]),
                       (''b'', [(''a'', \<lparr>username = ''ann'', isSpeaking = False,
                                         energy = Fin 0\<rparr>)])],
             sockets := {''a'', ''b''},
             currentRoom := (currentRoom initial_server)(''b'' := Some ''q'', ''a'' := Some ''b''),
             adapter := (adapter initial_server)
                          (''a'' := {''a''}, ''b'' := {''a'', ''b''}, ''q'' := {''b''})\<rparr>) \<and>
   members (initial_server
            \<lparr>rooms := [(''q'', [(''b'', \<lparr>username = ''bob'', isSpeaking = False,
                                         energy = Fin 0\<rparr>)]),
                       (''b'', [(''a'', \<lparr>username = ''ann'', isSpeaking = False,
                                         energy = Fin 0\<rparr>)])],
             sockets := {''a'', ''b''},
             currentRoom := (currentRoom initial_server)(''b'' := Some ''q'', ''a'' := Some ''b''),
             adapter := (adapter initial_server)
                          (''a'' := {''a''}, ''b'' := {''a'', ''b''}, ''q'' := {''b''})\<rparr>) ''b'' =
     {''a''} \<and>
   members (initial_server
            \<lparr>rooms := [(''q'', [(''b'', \<lparr>username = ''bob'', isSpeaking = False,
                                         energy = Fin 0\<rparr>)]),
                       (''b'', [(''a'', \<lparr>username = ''ann'', isSpeaking = False,
                                         energy = Fin 0\<rparr>)])],
             sockets := {''a'', ''b''},
             currentRoom := (currentRoom initial_server)(''b'' := Some ''q'', ''a'' := Some ''b''),
             adapter := (adapter initial_server)
                          (''a'' := {''a''}, ''b'' := {''a'', ''b''}, ''q'' := {''b''})\<rparr>) ''q'' = {''b''} \<and>
   inbox (outputs (step (initial_server
            \<lparr>rooms := [(''q'', [(''b'', \<lparr>username = ''bob'', isSpeaking = False,
                                         energy = Fin 0\<rparr>)]),
                       (''b'', [(''a'', \<lparr>username = ''ann'', isSpeaking = False,
                                         energy = Fin 0\<rparr>)])],
             sockets := {''a'', ''b''},
             currentRoom := (currentRoom initial_server)(''b'' := Some ''q'', ''a'' := Some ''b''),
             adapter := (adapter initial_server)
                          (''a'' := {''a''}, ''b'' := {''a'', ''b''}, ''q'' := {''b''})\<rparr>)
          (Voice ''a'' [Fin 1]))) ''b'' = [VoiceFrom ''a'' [Fin 1]]"
  by (auto simp: server_defs fun_eq_iff)

text \<open>
  C4. Disconnect convergence: in a reachable state, for an open connection whose
  \<open>currentRoom\<close> is a room, the \<open>'disconnect'\<close> handler and the \<open>'leave room'\<close> handler
  both return, and they leave the same registry: the participant is gone from the room, and
  the room is deleted exactly if it had no other participant. They make the same broadcasts
  (\<open>'user left'\<close> to the room, then the room names to everyone exactly if the room was
  deleted), and every other socket receives the same messages. The socket that disconnected
  receives nothing.
\<close>

theorem disconnect_converges:
  assumes "run initial_server evs = Inr st" and "s \<in> sockets st"
    and "currentRoom st s = Some r" and "r \<noteq> []"
  shows "\<exists>d outd l outl.
           step st (Disconnect s) = Inr (d, outd) \<and>
           step st (LeaveRoom s) = Inr (l, outl) \<and>
           rooms d = rooms l \<and>
           members l r = members st r - {s} \<and>
           (room_users l r = None \<longleftrightarrow> members st r = {s}) \<and>
           broadcasts outd = broadcasts outl \<and>
           broadcasts outl =
             (Room r, UserLeft s) #
             (if members st r = {s} then [(Everyone, UpdateRooms (map fst (rooms l)))] else []) \<and>
           (\<forall>t. t \<noteq> s \<longrightarrow> inbox outd t = inbox outl t) \<and>
           inbox outd s = []"
proof -
  have c: "consistent st" using assms(1) by (rule reachable_consistent)
  from c assms have mem: "s \<in> members st r" by (simp add: consistent_def bound_ok_def)
  then obtain us where us: "room_users st r = Some us" "s \<in> fst ` set us"
    by (auto simp: members_def split: option.splits)
  have only: "AList.delete s us = [] \<longleftrightarrow> members st r = {s}"
    using us by (auto simp: delete_empty_iff members_def)
  let ?st0 = "st\<lparr>sockets := sockets st - {s}, adapter := (\<lambda>r. adapter st r - {s})\<rparr>"
  let ?d = "fst (leaveRoom ?st0 s r)" and ?outd = "snd (leaveRoom ?st0 s r)"
  let ?l1 = "fst (leaveRoom st s r)"
  let ?l = "?l1\<lparr>currentRoom := (currentRoom ?l1)(s := None)\<rparr>"
  let ?outl = "snd (leaveRoom st s r) @ [(Socket s, {s}, RoomLeft)]"
  have us0: "room_users ?st0 r = Some us" using us by (simp add: room_users_def)
  have sd: "step st (Disconnect s) = Inr (?d, ?outd)"
    using assms by (simp add: on_disconnect_def Let_def)
  have sl: "step st (LeaveRoom s) = Inr (?l, ?outl)"
    using assms by (simp add: on_leave_room_def Let_def case_prod_beta emit_def)
  have rooms: "rooms ?d = rooms ?l" by (simp add: leaveRoom_rooms split: option.splits)
  have ml: "members ?l r = members st r - {s}" by (simp add: leaveRoom_members)
  have rl: "room_users ?l r = None \<longleftrightarrow> members st r = {s}"
    using us only leaveRoom_room_users [of st s r r] by (simp add: room_users_def)
  have outd: "?outd = (Room r, adapter st r - {s}, UserLeft s) #
      (if members st r = {s} then [(Everyone, sockets st - {s}, UpdateRooms (map fst (rooms ?l)))]
       else [])"
    using us0 only rooms by (auto simp: leaveRoom_out)
  have outl: "?outl = (Room r, adapter st r - {s}, UserLeft s) #
      (if members st r = {s} then [(Everyone, sockets st, UpdateRooms (map fst (rooms ?l)))]
       else []) @ [(Socket s, {s}, RoomLeft)]"
    using us only by (auto simp: leaveRoom_out)
  have b1: "broadcasts ?outd = broadcasts ?outl"
    unfolding outd outl by (simp add: broadcasts_def)
  have b2: "broadcasts ?outl = (Room r, UserLeft s) #
      (if members st r = {s} then [(Everyone, UpdateRooms (map fst (rooms ?l)))] else [])"
    unfolding outl by (simp add: broadcasts_def)
  have i1: "inbox ?outd t = inbox ?outl t" if "t \<noteq> s" for t
    unfolding outd outl using that by (simp add: inbox_def)
  have i2: "inbox ?outd s = []"
    unfolding outd by (simp add: inbox_def)
  show ?thesis
  proof (intro exI conjI allI impI)
    show "step st (Disconnect s) = Inr (?d, ?outd)" by (rule sd)
    show "step st (LeaveRoom s) = Inr (?l, ?outl)" by (rule sl)
    show "rooms ?d = rooms ?l" by (rule rooms)
    show "members ?l r = members st r - {s}" by (rule ml)
    show "(room_users ?l r = None) = (members st r = {s})" by (rule rl)
    show "broadcasts ?outd = broadcasts ?outl" by (rule b1)
    show "broadcasts ?outl = (Room r, UserLeft s) #
      (if members st r = {s} then [(Everyone, UpdateRooms (map fst (rooms ?l)))] else [])"
      by (rule b2)
    show "inbox ?outd t = inbox ?outl t" if "t \<noteq> s" for t using that by (rule i1)
    show "inbox ?outd s = []" by (rule i2)
  qed
qed

theorem disconnect_converges_witness:
  "\<exists>st. run initial_server
          [Connect ''a'', Connect ''b'', JoinRoom ''a'' ''r'' ''ann'',
           JoinRoom ''b'' ''q'' ''bob''] = Inr st \<and>
        ''a'' \<in> sockets st \<and> currentRoom st ''a'' = Some ''r'' \<and> members st ''r'' = {''a''} \<and>
        (\<exists>d outd l outl.
           step st (Disconnect ''a'') = Inr (d, outd) \<and>
           step st (LeaveRoom ''a'') = Inr (l, outl) \<and>
           rooms d = rooms l \<and>
           members l ''r'' = members st ''r'' - {''a''} \<and>
           (room_users l ''r'' = None \<longleftrightarrow> members st ''r'' = {''a''}) \<and>
           broadcasts outd = broadcasts outl \<and>
           broadcasts outl =
             (Room ''r'', UserLeft ''a'') #
             (if members st ''r'' = {''a''}
              then [(Everyone, UpdateRooms (map fst (rooms l)))] else []) \<and>
           (\<forall>t. t \<noteq> ''a'' \<longrightarrow> inbox outd t = inbox outl t) \<and>
           inbox outd ''a'' = [])"
proof -
  let ?evs = "[Connect ''a'', Connect ''b'', JoinRoom ''a'' ''r'' ''ann'',
               JoinRoom ''b'' ''q'' ''bob'']"
  obtain st where run: "run initial_server ?evs = Inr st"
    using run_consistent [OF consistent_initial, of ?evs] by blast
  have facts: "''a'' \<in> sockets st" "currentRoom st ''a'' = Some ''r''"
    "members st ''r'' = {''a''}"
    using run by (auto simp: server_defs)
  have r: "''r'' \<noteq> []" by simp
  note conv = disconnect_converges [OF run facts(1,2) r]
  show ?thesis
    apply (rule exI [of _ st])
    apply (insert run facts conv)
    apply (intro conjI)
        apply assumption+
    done
qed

text \<open>
  C5. Join fan-out, as the code does it: in a reachable state, a \<open>'join room'\<close> of an open
  connection for a named room returns; after the emits of the implicit leave of the old
  room it emits, in this order, \<open>'user joined'\<close> to every participant of the new room, the
  joiner included (\<open>socket.join\<close> precedes \<open>io.to(room).emit\<close>), and to the open connection
  whose id is the room's name if it is in the socket.io room of that name; the snapshot of
  the room's participants to the joiner alone; the room names to every open connection; and
  the id to the joiner alone.
\<close>

theorem join_fan_out:
  assumes "run initial_server evs = Inr st" and "s \<in> sockets st" and "r \<noteq> []"
  shows "\<exists>st' us.
           step st (JoinRoom s r name) =
             Inr (st',
                  (case currentRoom st s of
                     None \<Rightarrow> []
                   | Some old \<Rightarrow> if old = [] then [] else snd (leaveRoom st s old)) @
                  [(Room r, members st' r \<union> ({r} \<inter> adapter st r), UserJoined s name),
                   (Socket s, {s}, RoomUsers us),
                   (Everyone, sockets st', UpdateRooms (map fst (rooms st'))),
                   (Socket s, {s}, YourId s)]) \<and>
           room_users st' r = Some us \<and>
           members st' r = insert s (members st r) \<and>
           sockets st' = sockets st \<and>
           {r} \<inter> adapter st r \<subseteq> sockets st"
proof -
  note room = reachable_room [OF assms(1,3)]
  define st1 where "st1 =
    (case currentRoom st s of
       None \<Rightarrow> st
     | Some old \<Rightarrow> if old = [] then st else fst (leaveRoom st s old))"
  define pre where "pre =
    (case currentRoom st s of
       None \<Rightarrow> []
     | Some old \<Rightarrow> if old = [] then [] else snd (leaveRoom st s old))"
  let ?st' = "fst (joinRoom st1 s r name)"
  have sock1: "sockets st1 = sockets st"
    by (simp add: st1_def split: option.splits)
  have ad1: "insert s (adapter st1 r) = insert s (adapter st r)"
    by (auto simp: st1_def split: option.splits)
  have m1: "insert s (members st1 r) = insert s (members st r)"
    by (auto simp: st1_def leaveRoom_members split: option.splits)
  have st: "step st (JoinRoom s r name) = Inr (?st', pre @ snd (joinRoom st1 s r name))"
    using assms(2)
    by (auto simp: on_join_room_def st1_def pre_def case_prod_beta split: option.splits)
  obtain us where us: "room_users ?st' r = Some us"
    by (simp add: joinRoom_room_users)
  have mem: "members ?st' r = insert s (members st r)"
    using m1 by (simp add: joinRoom_members)
  have ad': "adapter ?st' r = members ?st' r \<union> ({r} \<inter> adapter st r)"
    using ad1 mem room(1) by auto
  have out: "snd (joinRoom st1 s r name) =
      [(Room r, members ?st' r \<union> ({r} \<inter> adapter st r), UserJoined s name),
       (Socket s, {s}, RoomUsers us),
       (Everyone, sockets ?st', UpdateRooms (map fst (rooms ?st'))), (Socket s, {s}, YourId s)]"
    using us ad' sock1 by (simp add: joinRoom_out)
  show ?thesis
  proof (intro exI conjI)
    show "step st (JoinRoom s r name) = Inr (?st',
        (case currentRoom st s of None \<Rightarrow> []
         | Some old \<Rightarrow> if old = [] then [] else snd (leaveRoom st s old)) @
        [(Room r, members ?st' r \<union> ({r} \<inter> adapter st r), UserJoined s name),
         (Socket s, {s}, RoomUsers us),
         (Everyone, sockets ?st', UpdateRooms (map fst (rooms ?st'))), (Socket s, {s}, YourId s)])"
      using st out by (simp add: pre_def)
    show "room_users ?st' r = Some us" by (rule us)
    show "members ?st' r = insert s (members st r)" by (rule mem)
    show "sockets ?st' = sockets st" using sock1 by simp
    show "{r} \<inter> adapter st r \<subseteq> sockets st" using room(2) by blast
  qed
qed

theorem join_fan_out_witness:
  "\<exists>st st' us.
     run initial_server [Connect ''b'', JoinRoom ''b'' ''r'' ''bob'', Connect ''a''] = Inr st \<and>
     step st (JoinRoom ''a'' ''r'' ''ann'') =
       Inr (st', [(Room ''r'', {''a'', ''b''}, UserJoined ''a'' ''ann''),
                  (Socket ''a'', {''a''}, RoomUsers us),
                  (Everyone, {''a'', ''b''}, UpdateRooms (map fst (rooms st'))),
                  (Socket ''a'', {''a''}, YourId ''a'')]) \<and>
     room_users st' ''r'' = Some us"
proof -
  let ?evs = "[Connect ''b'', JoinRoom ''b'' ''r'' ''bob'', Connect ''a'']"
  obtain st where run: "run initial_server ?evs = Inr st"
    using run_consistent [OF consistent_initial, of ?evs] by blast
  have facts: "''a'' \<in> sockets st" "sockets st = {''a'', ''b''}" "currentRoom st ''a'' = None"
    "members st ''r'' = {''b''}" "{''r''} \<inter> adapter st ''r'' = {}"
    using run by (auto simp: server_defs)
  have r: "''r'' \<noteq> []" by simp
  from join_fan_out [OF run facts(1) r, of "''ann''"] obtain st' us where
    "step st (JoinRoom ''a'' ''r'' ''ann'') =
       Inr (st', (case currentRoom st ''a'' of None \<Rightarrow> []
                  | Some old \<Rightarrow> if old = [] then [] else snd (leaveRoom st ''a'' old)) @
                 [(Room ''r'', members st' ''r'' \<union> ({''r''} \<inter> adapter st ''r''),
                   UserJoined ''a'' ''ann''),
                  (Socket ''a'', {''a''}, RoomUsers us),
                  (Everyone, sockets st', UpdateRooms (map fst (rooms st'))),
                  (Socket ''a'', {''a''}, YourId ''a'')])"
    "room_users st' ''r'' = Some us" "members st' ''r'' = insert ''a'' (members st ''r'')"
    "sockets st' = sockets st"
    by iprover
  with facts have
    "step st (JoinRoom ''a'' ''r'' ''ann'') =
       Inr (st', [(Room ''r'', {''a'', ''b''}, UserJoined ''a'' ''ann''),
                  (Socket ''a'', {''a''}, RoomUsers us),
                  (Everyone, {''a'', ''b''}, UpdateRooms (map fst (rooms st'))),
                  (Socket ''a'', {''a''}, YourId ''a'')])"
    "room_users st' ''r'' = Some us"
    by simp_all
  with run show ?thesis by iprover
qed

text \<open>
  The joiner receives its own \<open>'user joined'\<close>: after \<open>b\<close> joined \<open>r\<close> and \<open>a\<close> connected, the
  messages \<open>a\<close> receives for its join of \<open>r\<close> start with \<open>'user joined'\<close> for \<open>a\<close> itself.
\<close>

theorem join_fan_out_reaches_joiner:
  "run initial_server [Connect ''b'', JoinRoom ''b'' ''r'' ''bob'', Connect ''a''] =
     Inr (initial_server
            \<lparr>rooms := [(''r'', [(''b'', \<lparr>username = ''bob'', isSpeaking = False,
                                         energy = Fin 0\<rparr>)])],
             sockets := {''a'', ''b''},
             currentRoom := (currentRoom initial_server)(''b'' := Some ''r''),
             adapter := (adapter initial_server)
                          (''b'' := {''b''}, ''r'' := {''b''}, ''a'' := {''a''})\<rparr>) \<and>
   inbox (outputs (step
       (initial_server
            \<lparr>rooms := [(''r'', [(''b'', \<lparr>username = ''bob'', isSpeaking = False,
                                         energy = Fin 0\<rparr>)])],
             sockets := {''a'', ''b''},
             currentRoom := (currentRoom initial_server)(''b'' := Some ''r''),
             adapter := (adapter initial_server)
                          (''b'' := {''b''}, ''r'' := {''b''}, ''a'' := {''a''})\<rparr>)
       (JoinRoom ''a'' ''r'' ''ann''))) ''a'' =
     [UserJoined ''a'' ''ann'',
      RoomUsers [(''b'', \<lparr>username = ''bob'', isSpeaking = False, energy = Fin 0\<rparr>),
                 (''a'', \<lparr>username = ''ann'', isSpeaking = False, energy = Fin 0\<rparr>)],
      UpdateRooms [''r''],
      YourId ''a'']"
  by (auto simp: server_defs fun_eq_iff)

text \<open>
  C8. Speaking-state relay. In a reachable state, for an open connection whose
  \<open>currentRoom\<close> is a room, the sender is a participant of the room (the test
  \<open>rooms.get(currentRoom).has(socket.id)\<close> succeeds) and the \<open>'speaking'\<close> handler returns: the
  stored participant gets the new flag and energy, nothing else in the registry changes,
  and \<open>'user speaking'\<close> with the sender's id goes to every participant of the room, the
  sender included (and to the open connection whose id is the room's name, if it is in the
  socket.io room of that name). A late event, from a connection that is closed or whose
  \<open>currentRoom\<close> is null (it left) or the empty string, changes nothing and emits nothing.
\<close>

theorem speaking_relay:
  "(run initial_server evs = Inr st \<and> s \<in> sockets st \<and> currentRoom st s = Some r \<and> r \<noteq> [] \<longrightarrow>
      (\<exists>st' u.
         step st (Speaking s b e) =
           Inr (st', [(Room r, members st r \<union> ({r} \<inter> adapter st r), UserSpeaking s b e)]) \<and>
         s \<in> members st r \<and>
         {r} \<inter> adapter st r \<subseteq> sockets st \<and>
         participant st r s = Some u \<and>
         participant st' r s = Some (u\<lparr>isSpeaking := b, energy := e\<rparr>) \<and>
         (\<forall>r' t. (r', t) \<noteq> (r, s) \<longrightarrow> participant st' r' t = participant st r' t) \<and>
         members st' = members st \<and> map fst (rooms st') = map fst (rooms st) \<and>
         sockets st' = sockets st \<and> currentRoom st' = currentRoom st \<and>
         adapter st' = adapter st)) \<and>
   (s0 \<notin> sockets st0 \<or> currentRoom st0 s0 = None \<or> currentRoom st0 s0 = Some [] \<longrightarrow>
      step st0 (Speaking s0 b e) = Inr (st0, []))"
proof (intro conjI impI)
  assume a: "run initial_server evs = Inr st \<and> s \<in> sockets st \<and> currentRoom st s = Some r \<and> r \<noteq> []"
  then have run: "run initial_server evs = Inr st" and r: "r \<noteq> []" by simp_all
  note room = reachable_room [OF run r]
  from a room(3) [of s] have mem: "s \<in> members st r" by simp
  from mem obtain us where us: "room_users st r = Some us" "s \<in> fst ` set us"
    by (auto simp: members_def split: option.splits)
  from us(2) obtain u where u: "map_of us s = Some u"
    by (metis domD dom_map_of_conv_image_fst)
  let ?f = "\<lambda>u. u\<lparr>isSpeaking := b, energy := e\<rparr>"
  let ?st' = "st\<lparr>rooms := AList.map_entry r (AList.map_entry s ?f) (rooms st)\<rparr>"
  have st: "step st (Speaking s b e) =
      Inr (?st', [(Room r, members st r \<union> ({r} \<inter> adapter st r), UserSpeaking s b e)])"
    using a us room(1) by (simp add: on_speaking_def Let_def emit_def)
  have keys: "map fst (AList.map_entry k g al) = map fst al"
    for k and g :: "'v \<Rightarrow> 'v" and al :: "('k \<times> 'v) list"
    by (induction al) auto
  have p0: "participant st r s = Some u"
    using us u by (simp add: participant_def)
  have p1: "participant ?st' r s = Some (?f u)"
    using us u by (simp add: participant_def room_users_def map_of_map_entry_eq)
  have p2: "participant ?st' r' t = participant st r' t" if "(r', t) \<noteq> (r, s)" for r' t
    using that
    by (auto simp: participant_def room_users_def map_of_map_entry_eq split: option.splits)
  have m: "members ?st' = members st"
    by (rule ext) (simp add: speaking_members)
  show "\<exists>st' u.
         step st (Speaking s b e) =
           Inr (st', [(Room r, members st r \<union> ({r} \<inter> adapter st r), UserSpeaking s b e)]) \<and>
         s \<in> members st r \<and>
         {r} \<inter> adapter st r \<subseteq> sockets st \<and>
         participant st r s = Some u \<and>
         participant st' r s = Some (u\<lparr>isSpeaking := b, energy := e\<rparr>) \<and>
         (\<forall>r' t. (r', t) \<noteq> (r, s) \<longrightarrow> participant st' r' t = participant st r' t) \<and>
         members st' = members st \<and> map fst (rooms st') = map fst (rooms st) \<and>
         sockets st' = sockets st \<and> currentRoom st' = currentRoom st \<and>
         adapter st' = adapter st"
  proof (intro exI conjI allI impI)
    show "step st (Speaking s b e) =
        Inr (?st', [(Room r, members st r \<union> ({r} \<inter> adapter st r), UserSpeaking s b e)])"
      by (rule st)
    show "s \<in> members st r" by (rule mem)
    show "{r} \<inter> adapter st r \<subseteq> sockets st" using room(2) by blast
    show "participant st r s = Some u" by (rule p0)
    show "participant ?st' r s = Some (u\<lparr>isSpeaking := b, energy := e\<rparr>)" by (rule p1)
    show "participant ?st' r' t = participant st r' t" if "(r', t) \<noteq> (r, s)" for r' t
      using that by (rule p2)
    show "members ?st' = members st" by (rule m)
    show "map fst (rooms ?st') = map fst (rooms st)" by (simp add: keys)
  qed simp_all
next
  assume "s0 \<notin> sockets st0 \<or> currentRoom st0 s0 = None \<or> currentRoom st0 s0 = Some []"
  then show "step st0 (Speaking s0 b e) = Inr (st0, [])"
    by (auto simp: on_speaking_def)
qed

theorem speaking_relay_witness:
  "\<exists>st st' st0.
     run initial_server
       [Connect ''a'', Connect ''b'', JoinRoom ''a'' ''r'' ''ann'', JoinRoom ''b'' ''r'' ''bob'']
       = Inr st \<and>
     step st (Speaking ''a'' True (Fin (- 20))) =
       Inr (st', [(Room ''r'', {''a'', ''b''}, UserSpeaking ''a'' True (Fin (- 20)))]) \<and>
     participant st' ''r'' ''a'' =
       Some \<lparr>username = ''ann'', isSpeaking = True, energy = Fin (- 20)\<rparr> \<and>
     participant st' ''r'' ''b'' =
       Some \<lparr>username = ''bob'', isSpeaking = False, energy = Fin 0\<rparr> \<and>
     run initial_server
       [Connect ''a'', Connect ''b'', JoinRoom ''a'' ''r'' ''ann'', JoinRoom ''b'' ''r'' ''bob'',
        LeaveRoom ''a''] = Inr st0 \<and>
     ''a'' \<in> sockets st0 \<and> currentRoom st0 ''a'' = None \<and>
     step st0 (Speaking ''a'' False (Fin (- 60))) = Inr (st0, [])"
proof -
  let ?evs = "[Connect ''a'', Connect ''b'', JoinRoom ''a'' ''r'' ''ann'',
               JoinRoom ''b'' ''r'' ''bob'']"
  let ?left = "[Connect ''a'', Connect ''b'', JoinRoom ''a'' ''r'' ''ann'',
               JoinRoom ''b'' ''r'' ''bob'', LeaveRoom ''a'']"
  obtain st where run: "run initial_server ?evs = Inr st"
    using run_consistent [OF consistent_initial, of ?evs] by blast
  obtain st0 where run0: "run initial_server ?left = Inr st0"
    using run_consistent [OF consistent_initial, of ?left] by blast
  have facts: "''a'' \<in> sockets st" "currentRoom st ''a'' = Some ''r''"
    "members st ''r'' = {''a'', ''b''}" "{''r''} \<inter> adapter st ''r'' = {}"
    "participant st ''r'' ''a'' = Some \<lparr>username = ''ann'', isSpeaking = False, energy = Fin 0\<rparr>"
    "participant st ''r'' ''b'' = Some \<lparr>username = ''bob'', isSpeaking = False, energy = Fin 0\<rparr>"
    using run by (auto simp: server_defs participant_def)
  have facts0: "''a'' \<in> sockets st0" "currentRoom st0 ''a'' = None"
    using run0 by (auto simp: server_defs)
  have hyp: "run initial_server ?evs = Inr st \<and> ''a'' \<in> sockets st \<and>
      currentRoom st ''a'' = Some ''r'' \<and> ''r'' \<noteq> []"
    by (intro conjI run facts(1) facts(2)) simp
  note rel = speaking_relay [where evs = ?evs and st = st and s = "''a''" and r = "''r''"
      and b = True and e = "Fin (- 20)", THEN conjunct1, THEN mp, OF hyp]
  have hyp0: "''a'' \<notin> sockets st0 \<or> currentRoom st0 ''a'' = None \<or>
      currentRoom st0 ''a'' = Some []"
    using facts0(2) by simp
  note rel0 = speaking_relay [where ?s0.0 = "''a''" and ?st0.0 = st0
      and b = False and e = "Fin (- 60)", THEN conjunct2, THEN mp, OF hyp0]
  from rel obtain st' u where
    p: "step st (Speaking ''a'' True (Fin (- 20))) =
          Inr (st', [(Room ''r'', members st ''r'' \<union> ({''r''} \<inter> adapter st ''r''),
                      UserSpeaking ''a'' True (Fin (- 20)))])"
      "participant st ''r'' ''a'' = Some u"
      "participant st' ''r'' ''a'' = Some (u\<lparr>isSpeaking := True, energy := Fin (- 20)\<rparr>)"
      "\<forall>r' t. (r', t) \<noteq> (''r'', ''a'') \<longrightarrow> participant st' r' t = participant st r' t"
    by blast
  from p(4) have "participant st' ''r'' ''b'' = participant st ''r'' ''b''" by simp
  with p facts have q:
    "step st (Speaking ''a'' True (Fin (- 20))) =
       Inr (st', [(Room ''r'', {''a'', ''b''}, UserSpeaking ''a'' True (Fin (- 20)))])"
    "participant st' ''r'' ''a'' = Some \<lparr>username = ''ann'', isSpeaking = True, energy = Fin (- 20)\<rparr>"
    "participant st' ''r'' ''b'' = Some \<lparr>username = ''bob'', isSpeaking = False, energy = Fin 0\<rparr>"
    by auto
  note r = rel0
  from run q run0 facts0 r show ?thesis by iprover
qed

section \<open>Client: the energy of a block\<close>

lemma foldl_squares:
  "foldl (\<lambda>sum x. js_add sum (js_mul x x)) (Fin a) (map Fin xs) =
     Fin (a + sum_list (map (\<lambda>x. x * x) xs))"
  by (induction xs arbitrary: a) (simp_all add: add.assoc)

lemma sum_squares_finite: "sum_squares (map Fin xs) = Fin (sum_list (map (\<lambda>x. x * x) xs))"
  by (simp add: sum_squares_def foldl_squares)

lemma sum_list_squares_nonneg: "0 \<le> sum_list (map (\<lambda>x. x * x) (xs :: real list))"
  by (induction xs) simp_all

lemma calculateEnergy_finite:
  assumes "xs \<noteq> []"
  shows "calculateEnergy (map Fin xs) =
           js_mul (Fin 20)
             (js_log10 (Fin (sqrt (sum_list (map (\<lambda>x. x * x) xs) / real (length xs)))))"
proof -
  have "0 \<le> sum_list (map (\<lambda>x. x * x) xs) / real (length xs)"
    using sum_list_squares_nonneg [of xs] by simp
  with assms show ?thesis
    by (simp add: calculateEnergy_def sum_squares_finite Let_def)
qed

lemma calculateEnergy_uniform:
  assumes "0 < n" "0 \<le> a"
  shows "calculateEnergy (replicate n (Fin a)) = js_mul (Fin 20) (js_log10 (Fin a))"
proof -
  have ne: "replicate n a \<noteq> []" using assms by simp
  have e1: "map Fin (replicate n a) = replicate n (Fin a)" by simp
  have e2: "sum_list (map (\<lambda>x. x * x) (replicate n a)) / real (length (replicate n a)) = a * a"
    using assms by (simp add: sum_list_replicate)
  have e3: "sqrt (a * a) = a" using assms by simp
  from calculateEnergy_finite [OF ne] show ?thesis unfolding e1 e2 e3 .
qed

lemma calculateEnergy_one: "calculateEnergy [Fin 1] = Fin 0"
  by (simp add: calculateEnergy_def sum_squares_def)

section \<open>Client: the playback invariant\<close>







section \<open>Client: the claims\<close>

text \<open>
  C6. Energy meter, as the code does it: for a non-empty block of finite samples
  \<open>calculateEnergy\<close> is \<open>20 * Math.log10\<close> of the root of the mean square, and it is a
  function of the block alone. A block of \<open>n > 0\<close> samples of one positive amplitude \<open>a\<close>
  gives \<open>20 * log10(a)\<close>. A block of \<open>n > 0\<close> zeros gives \<open>-Infinity\<close>: the code defines no
  floor. That value is not NaN and its comparison with the threshold is false, so the
  detector classifies such a block by the padding alone; when the classification changes
  on such a block, \<open>-Infinity\<close> is the energy of the \<open>'speaking'\<close> message, and on the wire it
  is \<open>null\<close>.
\<close>

theorem energy_meter:
  assumes "xs \<noteq> []" and "0 < n" and "0 < a"
  shows "calculateEnergy (map Fin xs) =
           js_mul (Fin 20)
             (js_log10 (Fin (sqrt (sum_list (map (\<lambda>x. x * x) xs) / real (length xs))))) \<and>
         calculateEnergy (replicate n (Fin a)) = Fin (20 * log 10 a) \<and>
         calculateEnergy (replicate n (Fin 0)) = NInf \<and>
         calculateEnergy (replicate n (Fin 0)) \<noteq> NaN \<and>
         js_gt (calculateEnergy (replicate n (Fin 0))) ENERGY_THRESHOLD = False \<and>
         detectVoiceActivity now (calculateEnergy (replicate n (Fin 0))) prev =
           (now - prev < SPEECH_PADDING, prev) \<and>
         (vadEnabled c \<and> truthy (currentUserId c) \<and> isCurrentlySpeaking c \<and>
          \<not> now - lastVoiceDetectTime c < SPEECH_PADDING \<longrightarrow>
            emits (snd (processAudio now (replicate n (Fin 0)) c)) = [SpeakingMsg False NInf]) \<and>
         to_wire (calculateEnergy (replicate n (Fin 0))) = Null"
proof -
  have u: "calculateEnergy (replicate n (Fin a)) = Fin (20 * log 10 a)"
    using calculateEnergy_uniform [of n a] assms by simp
  have z: "calculateEnergy (replicate n (Fin 0)) = NInf"
    using calculateEnergy_uniform [of n 0] assms by simp
  have g: "js_gt NInf ENERGY_THRESHOLD = False"
    by (simp add: js_gt_def ENERGY_THRESHOLD_def)
  have d: "detectVoiceActivity t NInf p = (t - p < SPEECH_PADDING, p)" for t p
    using g by (simp add: detectVoiceActivity_def)
  have e: "emits (snd (processAudio now (replicate n (Fin 0)) c)) = [SpeakingMsg False NInf]"
    if "vadEnabled c \<and> truthy (currentUserId c) \<and> isCurrentlySpeaking c \<and>
        \<not> now - lastVoiceDetectTime c < SPEECH_PADDING"
    using that z d [of now "lastVoiceDetectTime c"]
    by (simp add: processAudio_def Let_def)
  from calculateEnergy_finite [OF assms(1)] u z g d [of now prev] e show ?thesis by simp
qed

theorem energy_meter_witness:
  "calculateEnergy (map Fin [3, 4]) =
     js_mul (Fin 20) (js_log10 (Fin (sqrt ((3 * 3 + 4 * 4) / 2)))) \<and>
   calculateEnergy (replicate 4 (Fin 1)) = Fin 0 \<and>
   calculateEnergy (replicate 4 (Fin 0)) = NInf \<and>
   detectVoiceActivity 1000 (calculateEnergy (replicate 4 (Fin 0))) 0 = (False, 0) \<and>
   emits (snd (processAudio 2000 (replicate 4 (Fin 0))
      (initial_client\<lparr>vadEnabled := True, currentUserId := Some ''a'',
                       isCurrentlySpeaking := True, lastVoiceDetectTime := 1000\<rparr>))) =
     [SpeakingMsg False NInf]"
proof -
  let ?c = "initial_client\<lparr>vadEnabled := True, currentUserId := Some ''a'',
                           isCurrentlySpeaking := True, lastVoiceDetectTime := 1000\<rparr>"
  have h: "[3, 4 :: real] \<noteq> []" "(0::nat) < 4" "(0::real) < 1" by simp_all
  have c: "vadEnabled ?c \<and> truthy (currentUserId ?c) \<and> isCurrentlySpeaking ?c \<and>
      \<not> 2000 - lastVoiceDetectTime ?c < SPEECH_PADDING"
    by (simp add: SPEECH_PADDING_def)
  from energy_meter [OF h, of 1000 0 ?c] have a:
    "calculateEnergy (map Fin [3, 4]) =
       js_mul (Fin 20) (js_log10 (Fin (sqrt ((3 * 3 + 4 * 4) / 2))))"
    "calculateEnergy (replicate 4 (Fin 1)) = Fin 0"
    "calculateEnergy (replicate 4 (Fin 0)) = NInf"
    "detectVoiceActivity 1000 (calculateEnergy (replicate 4 (Fin 0))) 0 = (False, 0)"
    by (auto simp: SPEECH_PADDING_def)
  from energy_meter [OF h, of 2000 0 ?c] c have b:
    "emits (snd (processAudio 2000 (replicate 4 (Fin 0)) ?c)) = [SpeakingMsg False NInf]"
    by blast
  from a b show ?thesis by simp
qed

text \<open>
  No floor: a block of zeros after a loud block gives \<open>-Infinity\<close>, which is sent in the
  \<open>'speaking'\<close> message; it arrives as \<open>null\<close>, and at a peer the meter is set to its full
  width (\<open>null\<close> counts as 0 in \<open>Math.min(100, (energy + 60) * 2.5)\<close>) and the handler ends
  with a TypeError on \<open>energy.toFixed\<close>.
\<close>

theorem energy_meter_has_no_floor:
  "calculateEnergy (replicate 4 (Fin 0)) = NInf \<and>
   emits (snd (processAudio 2000 (replicate 4 (Fin 0))
      (fst (processAudio 1000 [Fin 1]
         (initial_client\<lparr>vadEnabled := True, currentUserId := Some ''a''\<rparr>))))) =
     [SpeakingMsg False NInf] \<and>
   to_wire NInf = Null \<and>
   on_user_speaking True ''a'' False (to_wire NInf) =
     [SetWidth ''a'' (Fin 100), SetColor ''a'' ''#ff0000'', ThrewTypeError] \<and>
   on_user_speaking False ''a'' False (to_wire NInf) =
     [LoggedMeterNotFound ''a'', ThrewTypeError]"
proof -
  have z: "calculateEnergy (replicate 4 (Fin 0)) = NInf"
    using calculateEnergy_uniform [of 4 0] by simp
  have z': "calculateEnergy [Fin 0, Fin 0, Fin 0, Fin 0] = NInf"
    using z by (simp add: numeral_eq_Suc)
  have e: "emits (snd (processAudio 2000 (replicate 4 (Fin 0))
      (fst (processAudio 1000 [Fin 1]
         (initial_client\<lparr>vadEnabled := True, currentUserId := Some ''a''\<rparr>))))) =
     [SpeakingMsg False NInf]"
    by (simp add: processAudio_def Let_def calculateEnergy_one z z' detectVoiceActivity_def
                  js_gt_def ENERGY_THRESHOLD_def SPEECH_PADDING_def initial_client_def)
  have p: "on_user_speaking True ''a'' False (to_wire NInf) =
     [SetWidth ''a'' (Fin 100), SetColor ''a'' ''#ff0000'', ThrewTypeError]"
    "on_user_speaking False ''a'' False (to_wire NInf) =
     [LoggedMeterNotFound ''a'', ThrewTypeError]"
    by (simp_all add: on_user_speaking_def updateActivityMeter_def getColorForEnergy_def Let_def)
  from z e p show ?thesis by simp
qed

text \<open>
  C3. VAD hysteresis: with the threshold -45 dB and the padding 300 ms, an energy above the
  threshold is classified as speaking and records \<open>now\<close> as the last detection; otherwise
  the reading is speaking exactly if less than the padding has passed since the last
  detection, which stays as it was. Readings above, below and below the threshold at
  \<open>t0\<close>, \<open>t0 + 50\<close> and \<open>t0 + 350\<close> are classified speaking, speaking, not speaking,
  whatever the last detection was before.
\<close>

theorem vad_hysteresis:
  assumes "js_gt e0 (Fin (- 45))" and "js_lt e1 (Fin (- 45))" and "js_lt e2 (Fin (- 45))"
  shows "detectVoiceActivity now e prev =
           (if js_gt e (Fin (- 45)) then (True, now)
            else if now - prev < 300 then (True, prev)
            else (False, prev)) \<and>
         detect_all [(t0, e0), (t0 + 50, e1), (t0 + 350, e2)] prev0 = [True, True, False]"
proof -
  have lt_not_gt: "\<not> js_gt x y" if "js_lt x y" for x y
    using that unfolding js_gt_def by (cases x; cases y) auto
  from assms lt_not_gt show ?thesis
    by (simp add: detectVoiceActivity_def ENERGY_THRESHOLD_def SPEECH_PADDING_def)
qed

theorem vad_hysteresis_witness:
  "detectVoiceActivity 1050 (Fin (- 60)) 1000 = (True, 1000) \<and>
   detect_all [(1000, Fin (- 20)), (1000 + 50, Fin (- 60)), (1000 + 350, Fin (- 60))] 0 =
     [True, True, False]"
proof -
  have h: "js_gt (Fin (- 20)) (Fin (- 45))" "js_lt (Fin (- 60)) (Fin (- 45))"
    by (simp_all add: js_gt_def)
  from vad_hysteresis [OF h(1) h(2) h(2), of 1050 "Fin (- 60)" 1000 1000 0]
  show ?thesis by (simp add: js_gt_def)
qed

text \<open>
  C7. Capture pipeline: with capture enabled and the id assigned, \<open>processAudio\<close> sends the
  raw block exactly if the block is classified as speaking, and after it a \<open>'speaking'\<close>
  message with the classification and the energy of the block exactly if the classification
  differs from \<open>isCurrentlySpeaking\<close>; it sends nothing else. Afterwards
  \<open>isCurrentlySpeaking\<close> is the classification of this block, so the next block is compared
  with it.
\<close>

theorem capture_pipeline:
  assumes "vadEnabled c" and "truthy (currentUserId c)"
  shows "emits (snd (processAudio now inputData c)) =
           (if fst (detectVoiceActivity now (calculateEnergy inputData) (lastVoiceDetectTime c))
            then [VoiceMsg inputData] else []) @
           (if fst (detectVoiceActivity now (calculateEnergy inputData) (lastVoiceDetectTime c))
               \<noteq> isCurrentlySpeaking c
            then [SpeakingMsg
                    (fst (detectVoiceActivity now (calculateEnergy inputData)
                            (lastVoiceDetectTime c)))
                    (calculateEnergy inputData)]
            else []) \<and>
         isCurrentlySpeaking (fst (processAudio now inputData c)) =
           fst (detectVoiceActivity now (calculateEnergy inputData) (lastVoiceDetectTime c)) \<and>
         lastVoiceDetectTime (fst (processAudio now inputData c)) =
           snd (detectVoiceActivity now (calculateEnergy inputData) (lastVoiceDetectTime c)) \<and>
         vadEnabled (fst (processAudio now inputData c)) \<and>
         currentUserId (fst (processAudio now inputData c)) = currentUserId c"
  using assms
  by (auto simp: processAudio_def Let_def case_prod_beta)

theorem capture_pipeline_witness:
  "emits (snd (processAudio 1000 [Fin 1]
      (initial_client\<lparr>vadEnabled := True, currentUserId := Some ''me''\<rparr>))) =
     [VoiceMsg [Fin 1], SpeakingMsg True (Fin 0)] \<and>
   isCurrentlySpeaking (fst (processAudio 1000 [Fin 1]
      (initial_client\<lparr>vadEnabled := True, currentUserId := Some ''me''\<rparr>)))"
proof -
  let ?c = "initial_client\<lparr>vadEnabled := True, currentUserId := Some ''me''\<rparr>"
  have h: "vadEnabled ?c" "truthy (currentUserId ?c)" by simp_all
  have d: "detectVoiceActivity 1000 (calculateEnergy [Fin 1]) (lastVoiceDetectTime ?c) =
      (True, 1000)"
    by (simp add: calculateEnergy_one detectVoiceActivity_def js_gt_def ENERGY_THRESHOLD_def)
  have i: "\<not> isCurrentlySpeaking ?c" by (simp add: initial_client_def)
  from capture_pipeline [OF h, of 1000 "[Fin 1]"] d i show ?thesis
    by (simp add: calculateEnergy_one)
qed



text \<open>
  C10. Failure of the microphone, as the code handles it: when \<open>getUserMedia\<close> rejects, the
  \<open>catch\<close> writes the message of the error to the debug sink, no exception escapes, and the
  client's variables are what they were, so capture is not started and no audio context is
  created. A voice event received afterwards is enqueued and played only if an audio
  context of an earlier start is running; otherwise it is discarded, as it is when the start
  that fails follows a stop, which closed the context.
\<close>

theorem mic_failure_contained:
  assumes "truthy (currentUserId c)" and "getUserMedia env = Inl msg"
  shows "startVoiceChat env c =
           (c, [Log LogStarting, Log LogRequestingMic, Log (LogErrorStarting msg),
                Log LogFullErrorObject]) \<and>
         (if audioContext c = Some Running
          then started (snd (on_voice uid data (fst (startVoiceChat env c)))) @
               audioQueue (fst (on_voice uid data (fst (startVoiceChat env c)))) =
                 audioQueue c @ [(uid, data)]
          else on_voice uid data (fst (startVoiceChat env c)) = (c, [])) \<and>
         on_voice uid data (fst (startVoiceChat env (fst (stopVoiceChat c)))) =
           (fst (stopVoiceChat c), [])"
proof -
  have s: "startVoiceChat env c' =
      (c', [Log LogStarting, Log LogRequestingMic, Log (LogErrorStarting msg),
            Log LogFullErrorObject])" if "truthy (currentUserId c')" for c'
    using that assms(2) by (simp add: startVoiceChat_def)
  have stopped: "truthy (currentUserId (fst (stopVoiceChat c)))"
    "audioContext (fst (stopVoiceChat c)) \<noteq> Some Running"
    using assms(1) by (auto simp: stopVoiceChat_def split: option.splits)
  have v: "started (snd (on_voice uid data c)) @ audioQueue (fst (on_voice uid data c)) =
      audioQueue c @ [(uid, data)]" if "audioContext c = Some Running"
    using that by (auto simp: on_voice_def playNextAudio_def Let_def split: list.splits)
  have d: "on_voice uid data c' = (c', [])" if "audioContext c' \<noteq> Some Running" for c'
    using that by (simp add: on_voice_def)
  from s [OF assms(1)] s [OF stopped(1)] v d [of c] d [OF stopped(2)] show ?thesis
    by simp
qed

theorem mic_failure_contained_witness:
  "startVoiceChat \<lparr>getUserMedia = Inl ''Permission denied'', newContextState = Running,
                   resumeError = None\<rparr>
     (on_your_id ''me'' initial_client) =
     (on_your_id ''me'' initial_client,
      [Log LogStarting, Log LogRequestingMic, Log (LogErrorStarting ''Permission denied''),
       Log LogFullErrorObject]) \<and>
   startVoiceChat \<lparr>getUserMedia = Inl ''Permission denied'', newContextState = Running,
                   resumeError = None\<rparr>
     (on_your_id ''me'' initial_client\<lparr>audioContext := Some Running\<rparr>) =
     (on_your_id ''me'' initial_client\<lparr>audioContext := Some Running\<rparr>,
      [Log LogStarting, Log LogRequestingMic, Log (LogErrorStarting ''Permission denied''),
       Log LogFullErrorObject]) \<and>
   started (snd (on_voice ''peer'' [Fin 1]
     (fst (startVoiceChat \<lparr>getUserMedia = Inl ''Permission denied'', newContextState = Running,
                           resumeError = None\<rparr>
             (on_your_id ''me'' initial_client\<lparr>audioContext := Some Running\<rparr>))))) =
     [(''peer'', [Fin 1])]"
proof -
  let ?env = "\<lparr>getUserMedia = Inl ''Permission denied'', newContextState = Running,
               resumeError = None\<rparr>"
  let ?c0 = "on_your_id ''me'' initial_client"
  let ?c1 = "on_your_id ''me'' initial_client\<lparr>audioContext := Some Running\<rparr>"
  have t0: "truthy (currentUserId ?c0)" and t1: "truthy (currentUserId ?c1)"
    by (simp_all add: on_your_id_def initial_client_def)
  have g: "getUserMedia ?env = Inl ''Permission denied''" by simp
  have q: "audioQueue ?c1 = []" "audioContext ?c1 = Some Running"
    "audioContext ?c0 \<noteq> Some Running"
    by (simp_all add: on_your_id_def initial_client_def)
  note a = mic_failure_contained [OF t0 g, of "''peer''" "[Fin 1]"]
  note b = mic_failure_contained [OF t1 g, of "''peer''" "[Fin 1]"]
  have b2: "started (snd (on_voice ''peer'' [Fin 1] (fst (startVoiceChat ?env ?c1)))) = [(''peer'', [Fin 1])]"
    using b q by (auto simp: on_voice_def playNextAudio_def on_your_id_def initial_client_def)
  from a b b2 show ?thesis by simp
qed

text \<open>
  A client that received its id and whose first start fails does not play what it receives:
  the block is neither started nor queued.
\<close>

theorem mic_failure_drops_voice:
  "started (snd (on_voice ''peer'' [Fin 1]
     (fst (startVoiceChat \<lparr>getUserMedia = Inl ''Permission denied'', newContextState = Running,
                           resumeError = None\<rparr>
             (on_your_id ''me'' initial_client))))) = [] \<and>
   audioQueue (fst (on_voice ''peer'' [Fin 1]
     (fst (startVoiceChat \<lparr>getUserMedia = Inl ''Permission denied'', newContextState = Running,
                           resumeError = None\<rparr>
             (on_your_id ''me'' initial_client))))) = [] \<and>
   playing (fst (on_voice ''peer'' [Fin 1]
     (fst (startVoiceChat \<lparr>getUserMedia = Inl ''Permission denied'', newContextState = Running,
                           resumeError = None\<rparr>
             (on_your_id ''me'' initial_client))))) = []"
  by (simp add: startVoiceChat_def on_voice_def on_your_id_def initial_client_def)

end
